theory Spec2Isabelle
  imports Complex_Main "HOL-Library.AList" "HOL-Library.Sublist" "HOL-Library.Char_ord"
    "HOL-Library.List_Lexorder"
begin

section \<open>The local job cache returner (salt/returners/local\_cache.py)\<close>

text \<open>
  The module keeps job records in a directory tree below \<open>cachedir/jobs\<close>.  It is a
  Python 2 module: \<open>os\<close> functions raise \<open>OSError\<close>, \<open>open\<close> raises \<open>IOError\<close>, and
  the two classes are unrelated.  Everything the module takes from its environment
  (\<open>__opts__\<close>, \<open>hashlib\<close>, the payload serializer, \<open>salt.utils.jid\<close>) is a field of
  the record \<open>env\<close>; the file system and the clock are the record \<open>world\<close>, passed
  through every function that reads or writes files.
\<close>

subsection \<open>Values, exceptions, environment\<close>

text \<open>Structured payload values (what the serializer dumps and loads).\<close>

datatype pyval =
    PNone
  | PBool bool
  | PInt int
  | PStr string
  | PList "pyval list"
  | PDict "(string \<times> pyval) list"

datatype errno = EEXIST | ENOENT | ENOTDIR | EISDIR | EACCES | EBUSY

text \<open>
  Exceptions.  \<open>OSError\<close> and \<open>IOError\<close> carry the errno and the file name;
  \<open>OtherError\<close> carries the message of any other exception (a decoder failure, say).
\<close>

datatype exn =
    OSError errno string
  | IOError errno string
  | KeyError string
  | TypeError string
  | RuntimeError string
  | OtherError string

datatype logrec = LogError string | LogWarning string

record env =
  cachedir :: string
  hash_type :: string
  keep_jobs :: int
  hexdigest :: "string \<Rightarrow> string \<Rightarrow> string"
  dumps :: "pyval \<Rightarrow> string"
  loads :: "string \<Rightarrow> exn + pyval"
  format_jid_instance_ext :: "string \<Rightarrow> pyval \<Rightarrow> exn + pyval"

text \<open>
  \<open>hexdigest e a s\<close> is \<open>getattr(hashlib, a)(s).hexdigest()\<close>; \<open>dumps\<close> and \<open>loads\<close>
  are the serializer built by \<open>salt.payload.Serial(__opts__)\<close>;
  \<open>format_jid_instance_ext\<close> is the function of that name in \<open>salt.utils.jid\<close>.
  They are parameters: the theorems below hold for every choice of them.
\<close>

definition LOAD_P :: string where "LOAD_P = ''.load.p''"
definition MINIONS_P :: string where "MINIONS_P = ''.minions.p''"
definition RETURN_P :: string where "RETURN_P = ''return.p''"
definition OUT_P :: string where "OUT_P = ''out.p''"
definition ENDTIME :: string where "ENDTIME = ''endtime''"

subsection \<open>Path strings (posixpath)\<close>

definition startswith :: "string \<Rightarrow> string \<Rightarrow> bool" where
  "startswith s p = (take (length p) s = p)"

text \<open>One round of the loop of \<open>posixpath.join\<close>, and the loop.\<close>

definition join2 :: "string \<Rightarrow> string \<Rightarrow> string" where
  "join2 path b =
     (if startswith b ''/'' then b
      else if path = [] \<or> last path = CHR ''/'' then path @ b
      else path @ ''/'' @ b)"

definition os_path_join :: "string \<Rightarrow> string list \<Rightarrow> string" where
  "os_path_join a p = foldl join2 a p"

definition job_dir :: "env \<Rightarrow> string" where
  "job_dir e = os_path_join (cachedir e) [''jobs'']"

definition jid_dir :: "env \<Rightarrow> string \<Rightarrow> string" where
  "jid_dir e jid =
     (let jhash = hexdigest e (hash_type e) jid
      in os_path_join (job_dir e) [take 2 jhash, drop 2 jhash])"

text \<open>What \<open>hexdigest()\<close> returns: a non-empty string of lower-case hex digits.\<close>

definition is_hexdigest :: "string \<Rightarrow> bool" where
  "is_hexdigest s = (s \<noteq> [] \<and> list_all (\<lambda>c. c \<in> set ''0123456789abcdef'') s)"

text \<open>A stand-in digest for the examples: a table of four job ids.\<close>

definition demo_digest :: "string \<Rightarrow> string \<Rightarrow> string" where
  "demo_digest a s =
     (if s = ''j1'' then ''aa01''
      else if s = ''j2'' then ''bb02''
      else if s = ''j3'' then ''aa03''
      else ''cc04'')"


subsection \<open>The file system\<close>

text \<open>
  A path string names a list of components: the non-empty pieces between slashes
  (repeated and trailing slashes do not count; \<open>.\<close> and \<open>..\<close> are not interpreted and
  there are no symbolic links; relative and absolute paths start at the same root).
  The file system is an association list from component lists to nodes; the first
  entry for a key is the node there.  A file has its inode change time, a flag saying
  whether the process may open it, and its bytes.  Directories carry no time or mode.
\<close>

fun comps :: "string \<Rightarrow> string \<Rightarrow> string list" where
  "comps cur [] = (if cur = [] then [] else [cur])"
| "comps cur (c # cs) =
     (if c = CHR ''/'' then (if cur = [] then comps [] cs else cur # comps [] cs)
      else comps (cur @ [c]) cs)"

definition components :: "string \<Rightarrow> string list" where
  "components p = comps [] p"

datatype node = Dir | File real bool string

record world =
  files :: "(string list \<times> node) list"
  clock :: real

definition node_at :: "world \<Rightarrow> string list \<Rightarrow> node option" where
  "node_at w cs = (if cs = [] then Some Dir else map_of (files w) cs)"

definition put :: "world \<Rightarrow> string list \<Rightarrow> node \<Rightarrow> world" where
  "put w cs n = w\<lparr>files := AList.update cs n (files w)\<rparr>"

definition os_path_exists :: "world \<Rightarrow> string \<Rightarrow> bool" where
  "os_path_exists w name = (node_at w (components name) \<noteq> None)"

definition os_path_isdir :: "world \<Rightarrow> string \<Rightarrow> bool" where
  "os_path_isdir w name = (node_at w (components name) = Some Dir)"

definition os_path_isfile :: "world \<Rightarrow> string \<Rightarrow> bool" where
  "os_path_isfile w name =
     (case node_at w (components name) of Some (File t ok d) \<Rightarrow> True | _ \<Rightarrow> False)"

text \<open>
  The errno for a path that is not there: \<open>ENOTDIR\<close> when a regular file stands where
  one of its directories should be, \<open>ENOENT\<close> otherwise.
\<close>

definition absent_errno :: "world \<Rightarrow> string list \<Rightarrow> errno" where
  "absent_errno w cs =
     (if list_ex (\<lambda>p. case node_at w p of Some (File t ok d) \<Rightarrow> True | _ \<Rightarrow> False)
           (prefixes cs)
      then ENOTDIR else ENOENT)"

text \<open>\<open>os.mkdir\<close> on the components \<open>cs\<close> of \<open>name\<close>.\<close>

definition mkdir_c :: "world \<Rightarrow> string \<Rightarrow> string list \<Rightarrow> exn + world" where
  "mkdir_c w name cs =
     (if node_at w cs \<noteq> None then Inl (OSError EEXIST name)
      else case node_at w (butlast cs) of
             None \<Rightarrow> Inl (OSError (absent_errno w (butlast cs)) name)
           | Some (File t ok d) \<Rightarrow> Inl (OSError ENOTDIR name)
           | Some Dir \<Rightarrow> Inr (put w cs Dir))"

text \<open>
  \<open>os.makedirs\<close> (Python 2.7): when the parent does not exist, make it first, passing
  over an \<open>EEXIST\<close> from that; then \<open>mkdir\<close> the leaf.  A failing call leaves the file
  system as it was (the deepest missing ancestor is made first, and only its \<open>mkdir\<close>
  can fail), so a caller that catches the error goes on with the world it had.
\<close>

function makedirs_c :: "world \<Rightarrow> string \<Rightarrow> string list \<Rightarrow> exn + world" where
  "makedirs_c w name cs =
     (if cs \<noteq> [] \<and> node_at w (butlast cs) = None then
        (case makedirs_c w name (butlast cs) of
           Inl (OSError en n) \<Rightarrow> if en = EEXIST then mkdir_c w name cs else Inl (OSError en n)
         | Inl x \<Rightarrow> Inl x
         | Inr w' \<Rightarrow> mkdir_c w' name cs)
      else mkdir_c w name cs)"
  by pat_completeness auto
termination
  by (relation "measure (\<lambda>(w, name, cs). length cs)") auto

declare makedirs_c.simps [simp del]

definition os_makedirs :: "world \<Rightarrow> string \<Rightarrow> exn + world" where
  "os_makedirs w name = makedirs_c w name (components name)"

definition os_listdir :: "world \<Rightarrow> string \<Rightarrow> exn + string list" where
  "os_listdir w name =
     (let cs = components name in
      case node_at w cs of
        None \<Rightarrow> Inl (OSError (absent_errno w cs) name)
      | Some (File t ok d) \<Rightarrow> Inl (OSError ENOTDIR name)
      | Some Dir \<Rightarrow>
          Inr (remdups (map (\<lambda>(q, n). last q)
                 (filter (\<lambda>(q, n). q \<noteq> [] \<and> butlast q = cs) (files w)))))"

text \<open>\<open>shutil.rmtree\<close> with the default \<open>onerror\<close>, which raises.\<close>

definition shutil_rmtree :: "world \<Rightarrow> string \<Rightarrow> exn + world" where
  "shutil_rmtree w name =
     (let cs = components name in
      case node_at w cs of
        None \<Rightarrow> Inl (OSError (absent_errno w cs) name)
      | Some (File t ok d) \<Rightarrow> Inl (OSError ENOTDIR name)
      | Some Dir \<Rightarrow>
          if cs = [] then Inl (OSError EBUSY name)
          else Inr (w\<lparr>files := filter (\<lambda>(q, n). \<not> prefix cs q) (files w)\<rparr>))"

text \<open>\<open>os.stat(name).st_ctime\<close>; a directory's time is not modelled (read as 0).\<close>

definition st_ctime :: "world \<Rightarrow> string \<Rightarrow> exn + real" where
  "st_ctime w name =
     (case node_at w (components name) of
        None \<Rightarrow> Inl (OSError (absent_errno w (components name)) name)
      | Some Dir \<Rightarrow> Inr 0
      | Some (File t ok d) \<Rightarrow> Inr t)"

text \<open>\<open>salt.utils.fopen(name, 'r')\<close> and \<open>read()\<close>.\<close>

definition read_file :: "world \<Rightarrow> string \<Rightarrow> exn + string" where
  "read_file w name =
     (case node_at w (components name) of
        None \<Rightarrow> Inl (IOError (absent_errno w (components name)) name)
      | Some Dir \<Rightarrow> Inl (IOError EISDIR name)
      | Some (File t ok d) \<Rightarrow> if ok then Inr d else Inl (IOError EACCES name))"

text \<open>\<open>salt.utils.fopen(name, 'w')\<close> (also \<open>'wb+'\<close>), \<open>write(d)\<close> and close.\<close>

definition write_file :: "world \<Rightarrow> string \<Rightarrow> string \<Rightarrow> exn + world" where
  "write_file w name d =
     (let cs = components name in
      case node_at w cs of
        Some Dir \<Rightarrow> Inl (IOError EISDIR name)
      | Some (File t ok d0) \<Rightarrow>
          if ok then Inr (put w cs (File (clock w) ok d)) else Inl (IOError EACCES name)
      | None \<Rightarrow>
          (case node_at w (butlast cs) of
             None \<Rightarrow> Inl (IOError (absent_errno w (butlast cs)) name)
           | Some (File t ok d0) \<Rightarrow> Inl (IOError ENOTDIR name)
           | Some Dir \<Rightarrow> Inr (put w cs (File (clock w) True d))))"

text \<open>
  \<open>salt.utils.atomicfile.atomic_open(name, 'w+b')\<close>, a write and close: the bytes go
  to a temporary file in the same directory, which is renamed onto \<open>name\<close>.
\<close>

definition atomic_write :: "world \<Rightarrow> string \<Rightarrow> string \<Rightarrow> exn + world" where
  "atomic_write w name d =
     (let cs = components name in
      case node_at w (butlast cs) of
        None \<Rightarrow> Inl (OSError (absent_errno w (butlast cs)) name)
      | Some (File t ok d0) \<Rightarrow> Inl (OSError ENOTDIR name)
      | Some Dir \<Rightarrow>
          (case node_at w cs of
             Some Dir \<Rightarrow> Inl (OSError EISDIR name)
           | _ \<Rightarrow> Inr (put w cs (File (clock w) True d))))"

text \<open>\<open>serial.load(salt.utils.fopen(name, 'rb'))\<close>.\<close>

definition serial_load :: "env \<Rightarrow> world \<Rightarrow> string \<Rightarrow> exn + pyval" where
  "serial_load e w name =
     (case read_file w name of Inl x \<Rightarrow> Inl x | Inr d \<Rightarrow> loads e d)"

subsection \<open>Python helpers\<close>

definition strerror :: "errno \<Rightarrow> string" where
  "strerror en =
     (case en of
        EEXIST \<Rightarrow> ''[Errno 17] File exists''
      | ENOENT \<Rightarrow> ''[Errno 2] No such file or directory''
      | ENOTDIR \<Rightarrow> ''[Errno 20] Not a directory''
      | EISDIR \<Rightarrow> ''[Errno 21] Is a directory''
      | EACCES \<Rightarrow> ''[Errno 13] Permission denied''
      | EBUSY \<Rightarrow> ''[Errno 16] Device or resource busy'')"

text \<open>\<open>str(exc)\<close>.\<close>

definition exc_str :: "exn \<Rightarrow> string" where
  "exc_str x =
     (case x of
        OSError en n \<Rightarrow> strerror en @ '': '' @ [CHR 0x27] @ n @ [CHR 0x27]
      | IOError en n \<Rightarrow> strerror en @ '': '' @ [CHR 0x27] @ n @ [CHR 0x27]
      | KeyError k \<Rightarrow> [CHR 0x27] @ k @ [CHR 0x27]
      | TypeError m \<Rightarrow> m
      | RuntimeError m \<Rightarrow> m
      | OtherError m \<Rightarrow> m)"

text \<open>\<open>n in s\<close> for strings.\<close>

fun str_in :: "string \<Rightarrow> string \<Rightarrow> bool" where
  "str_in n [] = (n = [])"
| "str_in n (c # cs) = (startswith (c # cs) n \<or> str_in n cs)"

text \<open>\<open>d[k]\<close>.\<close>

definition py_getitem :: "pyval \<Rightarrow> string \<Rightarrow> exn + pyval" where
  "py_getitem d k =
     (case d of
        PDict kvs \<Rightarrow> (case map_of kvs k of None \<Rightarrow> Inl (KeyError k) | Some v \<Rightarrow> Inr v)
      | _ \<Rightarrow> Inl (TypeError ''object is not subscriptable''))"

text \<open>\<open>s.strip('\n')\<close>: newlines go from both ends.\<close>

definition strip_nl :: "string \<Rightarrow> string" where
  "strip_nl s =
     rev (dropWhile (\<lambda>c. c = CHR 0x0A) (rev (dropWhile (\<lambda>c. c = CHR 0x0A) s)))"

text \<open>\<open>xs.insert(i, x)\<close> for \<open>0 \<le> i\<close>.\<close>

definition list_insert :: "nat \<Rightarrow> 'a \<Rightarrow> 'a list \<Rightarrow> 'a list" where
  "list_insert i x xs = take i xs @ x # drop i xs"

text \<open>\<open>bisect.bisect\<close> (that is \<open>bisect_right\<close>): the binary search of the library.\<close>

function bisect_loop :: "'a::linorder list \<Rightarrow> 'a \<Rightarrow> nat \<Rightarrow> nat \<Rightarrow> nat" where
  "bisect_loop a x lo hi =
     (if lo < hi then
        (let mid = (lo + hi) div 2
         in if x < a ! mid then bisect_loop a x lo mid else bisect_loop a x (mid + 1) hi)
      else lo)"
  by pat_completeness auto
termination
  by (relation "measure (\<lambda>(a, x, lo, hi). hi - lo)") auto

declare bisect_loop.simps [simp del]

definition bisect :: "'a::linorder list \<Rightarrow> 'a \<Rightarrow> nat" where
  "bisect a x = bisect_loop a x 0 (length a)"

subsection \<open>prep\_jid\<close>

text \<open>Lines 98 to 104: write the \<open>jid\<close> file and, when asked, the \<open>nocache\<close> file.\<close>

definition prep_jid_write :: "env \<Rightarrow> world \<Rightarrow> bool \<Rightarrow> string \<Rightarrow> exn + (string \<times> world)" where
  "prep_jid_write e w nocache jid =
     (let jid_dir' = jid_dir e jid in
      case write_file w (os_path_join jid_dir' [''jid'']) jid of
        Inl x \<Rightarrow> Inl x
      | Inr w1 \<Rightarrow>
          if nocache then
            (case write_file w1 (os_path_join jid_dir' [''nocache'']) [] of
               Inl x \<Rightarrow> Inl x
             | Inr w2 \<Rightarrow> Inr (jid, w2))
          else Inr (jid, w1))"

text \<open>
  \<open>prep_jid(nocache, passed_jid)\<close>.  The last argument lists what the successive calls
  of \<open>salt.utils.jid.gen_jid()\<close> return, one per level of the recursion; when the list
  is used up the interpreter's recursion limit is reached.  The handler is
  \<open>except OSError\<close> with no test of the errno.
\<close>

fun prep_jid :: "env \<Rightarrow> world \<Rightarrow> bool \<Rightarrow> string option \<Rightarrow> string list
    \<Rightarrow> exn + (string \<times> world)" where
  "prep_jid e w nocache (Some jid) cands =
     (case os_makedirs w (jid_dir e jid) of
        Inl (OSError en n) \<Rightarrow> prep_jid_write e w nocache jid
      | Inl x \<Rightarrow> Inl x
      | Inr w1 \<Rightarrow> prep_jid_write e w1 nocache jid)"
| "prep_jid e w nocache None [] = Inl (RuntimeError ''maximum recursion depth exceeded'')"
| "prep_jid e w nocache None (jid # cands) =
     (case os_makedirs w (jid_dir e jid) of
        Inl (OSError en n) \<Rightarrow> prep_jid e w nocache None cands
      | Inl x \<Rightarrow> Inl x
      | Inr w1 \<Rightarrow> prep_jid_write e w1 nocache jid)"

subsection \<open>returner\<close>

text \<open>
  The load a minion returns: \<open>load['jid']\<close>, \<open>load['id']\<close>, \<open>load['return']\<close>, and the
  optional keys \<open>out\<close> and \<open>nocache\<close>.
\<close>

record load =
  l_jid :: string
  l_id :: string
  l_return :: pyval
  l_out :: "pyval option"
  l_nocache :: "bool option"

datatype retval = RNone | RFalse

definition replay_msg :: "string \<Rightarrow> string" where
  "replay_msg i = ''An extra return was detected from minion '' @ i
     @ '', please verify the minion, this could be a replay attack''"

definition inconsistency_msg :: "string \<Rightarrow> string" where
  "inconsistency_msg j = ''An inconsistency occurred, a job was received with a job id ''
     @ ''that is not present in the local cache: '' @ j"

text \<open>
  Lines 125 to 141, the handler of the \<open>OSError\<close> that \<open>os.makedirs(hn_dir)\<close> raised:
  the value returned and the record logged, or the error raised again.
\<close>

definition returner_except :: "load \<Rightarrow> errno \<Rightarrow> string \<Rightarrow> exn + (retval \<times> logrec list)" where
  "returner_except ld en n =
     (if en = EEXIST then Inr (RFalse, [LogError (replay_msg (l_id ld))])
      else if en = ENOENT then Inr (RFalse, [LogError (inconsistency_msg (l_jid ld))])
      else Inl (OSError en n))"

text \<open>
  \<open>returner(load)\<close>: the value returned (\<open>None\<close> or \<open>False\<close>), the world after the call
  and what was logged.  The last argument is for \<open>prep_jid\<close>, called when the job id is
  \<open>'req'\<close>.
\<close>

definition returner :: "env \<Rightarrow> world \<Rightarrow> load \<Rightarrow> string list
    \<Rightarrow> exn + (retval \<times> world \<times> logrec list)" where
  "returner e w ld cands =
     (case (if l_jid ld = ''req''
            then prep_jid e w (case l_nocache ld of None \<Rightarrow> False | Some b \<Rightarrow> b) None cands
            else Inr (l_jid ld, w)) of
        Inl x \<Rightarrow> Inl x
      | Inr (jid, w0) \<Rightarrow>
          (let jid_dir' = jid_dir e jid in
           if os_path_exists w0 (os_path_join jid_dir' [''nocache'']) then Inr (RNone, w0, [])
           else
             (let hn_dir = os_path_join jid_dir' [l_id ld] in
              case os_makedirs w0 hn_dir of
                Inl (OSError en n) \<Rightarrow>
                  (case returner_except (ld\<lparr>l_jid := jid\<rparr>) en n of
                     Inl x \<Rightarrow> Inl x
                   | Inr (r, lg) \<Rightarrow> Inr (r, w0, lg))
              | Inl x \<Rightarrow> Inl x
              | Inr w1 \<Rightarrow>
                  (case atomic_write w1 (os_path_join hn_dir [RETURN_P]) (dumps e (l_return ld)) of
                     Inl x \<Rightarrow> Inl x
                   | Inr w2 \<Rightarrow>
                       (case l_out ld of
                          None \<Rightarrow> Inr (RNone, w2, [])
                        | Some out \<Rightarrow>
                            (case atomic_write w2 (os_path_join hn_dir [OUT_P]) (dumps e out) of
                               Inl x \<Rightarrow> Inl x
                             | Inr w3 \<Rightarrow> Inr (RNone, w3, [])))))))"

subsection \<open>get\_jid\<close>

text \<open>One entry of the mapping that \<open>get_jid\<close> returns: \<open>{'return': r, 'out': o}\<close>.\<close>

record jret =
  r_return :: pyval
  r_out :: "pyval option"

text \<open>
  The body of the \<open>try\<close> (lines 240 to 245): the mapping as the body left it, and the
  exception that ended it, if one did.
\<close>

definition get_jid_try :: "env \<Rightarrow> world \<Rightarrow> string \<Rightarrow> string \<Rightarrow> string
    \<Rightarrow> (string \<rightharpoonup> jret) \<Rightarrow> (string \<rightharpoonup> jret) \<times> exn option" where
  "get_jid_try e w retp outp fn ret =
     (case serial_load e w retp of
        Inl x \<Rightarrow> (ret, Some x)
      | Inr ret_data \<Rightarrow>
          (let ret1 = ret(fn \<mapsto> \<lparr>r_return = ret_data, r_out = None\<rparr>) in
           if os_path_isfile w outp then
             (case serial_load e w outp of
                Inl x \<Rightarrow> (ret1, Some x)
              | Inr out_data \<Rightarrow>
                  (ret1(fn \<mapsto> \<lparr>r_return = ret_data, r_out = Some out_data\<rparr>), None))
           else (ret1, None)))"

text \<open>
  The loop \<open>while fn_ not in ret\<close> (lines 238 to 248).  It has no counter; a call that
  does not return is the value \<open>None\<close>.
\<close>

partial_function (option) get_jid_retry :: "env \<Rightarrow> world \<Rightarrow> string \<Rightarrow> string \<Rightarrow> string
    \<Rightarrow> (string \<rightharpoonup> jret) \<Rightarrow> (exn + (string \<rightharpoonup> jret)) option" where
  "get_jid_retry e w retp outp fn ret =
     (if ret fn \<noteq> None then Some (Inr ret)
      else
        (case get_jid_try e w retp outp fn ret of
           (ret1, None) \<Rightarrow> get_jid_retry e w retp outp fn ret1
         | (ret1, Some x) \<Rightarrow>
             if str_in ''Permission denied:'' (exc_str x) then Some (Inl x)
             else get_jid_retry e w retp outp fn ret1))"

text \<open>The loop over \<open>os.listdir(jid_dir)\<close> (lines 230 to 248).\<close>

fun get_jid_entries :: "env \<Rightarrow> world \<Rightarrow> string \<Rightarrow> string list \<Rightarrow> (string \<rightharpoonup> jret)
    \<Rightarrow> (exn + (string \<rightharpoonup> jret)) option" where
  "get_jid_entries e w jid_dir' [] ret = Some (Inr ret)"
| "get_jid_entries e w jid_dir' (fn # fns) ret =
     (if startswith fn ''.'' then get_jid_entries e w jid_dir' fns ret
      else if ret fn = None then
        (let retp = os_path_join jid_dir' [fn, RETURN_P];
             outp = os_path_join jid_dir' [fn, OUT_P]
         in if \<not> os_path_isfile w retp then get_jid_entries e w jid_dir' fns ret
            else
              (case get_jid_retry e w retp outp fn ret of
                 None \<Rightarrow> None
               | Some (Inl x) \<Rightarrow> Some (Inl x)
               | Some (Inr ret1) \<Rightarrow> get_jid_entries e w jid_dir' fns ret1))
      else get_jid_entries e w jid_dir' fns ret)"

definition get_jid :: "env \<Rightarrow> world \<Rightarrow> string \<Rightarrow> (exn + (string \<rightharpoonup> jret)) option" where
  "get_jid e w jid =
     (let jid_dir' = jid_dir e jid in
      if \<not> os_path_isdir w jid_dir' then Some (Inr Map.empty)
      else
        (case os_listdir w jid_dir' of
           Inl x \<Rightarrow> Some (Inl x)
         | Inr fns \<Rightarrow> get_jid_entries e w jid_dir' fns Map.empty))"

subsection \<open>The walk and get\_jids\_filter\<close>

text \<open>
  \<open>job['jid']\<close> of a loaded invocation record.  Job ids are strings (their order is
  the order of Python 2 byte strings); a record whose \<open>jid\<close> is something else is
  outside the model and reported as a \<open>TypeError\<close>.
\<close>

definition job_jid :: "pyval \<Rightarrow> exn + string" where
  "job_jid job =
     (case py_getitem job ''jid'' of
        Inl x \<Rightarrow> Inl x
      | Inr (PStr j) \<Rightarrow> Inr j
      | Inr v \<Rightarrow> Inl (TypeError ''jid is not a string''))"

text \<open>
  \<open>_walk_through(job_dir)\<close>: the tuples the generator yields, in order, or the
  exception that ends it.  (The generator is lazy; its consumers here have no effect
  of their own before the walk ends.)
\<close>

fun walk_finals :: "env \<Rightarrow> world \<Rightarrow> string \<Rightarrow> string list
    \<Rightarrow> exn + (string \<times> pyval \<times> string \<times> string) list" where
  "walk_finals e w t_path [] = Inr []"
| "walk_finals e w t_path (final # finals) =
     (let load_path = os_path_join t_path [final, LOAD_P] in
      if \<not> os_path_isfile w load_path then walk_finals e w t_path finals
      else
        (case serial_load e w load_path of
           Inl x \<Rightarrow> Inl x
         | Inr job \<Rightarrow>
             (case job_jid job of
                Inl x \<Rightarrow> Inl x
              | Inr jid \<Rightarrow>
                  (case walk_finals e w t_path finals of
                     Inl x \<Rightarrow> Inl x
                   | Inr js \<Rightarrow> Inr ((jid, job, t_path, final) # js)))))"

fun walk_tops :: "env \<Rightarrow> world \<Rightarrow> string \<Rightarrow> string list
    \<Rightarrow> exn + (string \<times> pyval \<times> string \<times> string) list" where
  "walk_tops e w job_dir' [] = Inr []"
| "walk_tops e w job_dir' (top' # tops) =
     (let t_path = os_path_join job_dir' [top'] in
      case os_listdir w t_path of
        Inl x \<Rightarrow> Inl x
      | Inr finals \<Rightarrow>
          (case walk_finals e w t_path finals of
             Inl x \<Rightarrow> Inl x
           | Inr js \<Rightarrow>
               (case walk_tops e w job_dir' tops of
                  Inl x \<Rightarrow> Inl x
                | Inr js' \<Rightarrow> Inr (js @ js'))))"

definition walk_through :: "env \<Rightarrow> world \<Rightarrow> string
    \<Rightarrow> exn + (string \<times> pyval \<times> string \<times> string) list" where
  "walk_through e w job_dir' =
     (case os_listdir w job_dir' of
        Inl x \<Rightarrow> Inl x
      | Inr tops \<Rightarrow> walk_tops e w job_dir' tops)"

text \<open>The loop of \<open>get_jids_filter\<close> (lines 276 to 287) over the tuples of the walk.\<close>

fun get_jids_filter_loop :: "env \<Rightarrow> int \<Rightarrow> bool \<Rightarrow> (string \<times> pyval \<times> string \<times> string) list
    \<Rightarrow> string list \<Rightarrow> pyval list \<Rightarrow> exn + pyval list" where
  "get_jids_filter_loop e count filter_find_job [] keys ret = Inr ret"
| "get_jids_filter_loop e count filter_find_job ((jid, job0, t_path, final) # rest) keys ret =
     (case format_jid_instance_ext e jid job0 of
        Inl x \<Rightarrow> Inl x
      | Inr job \<Rightarrow>
          (case (if filter_find_job then py_getitem job ''Function'' else Inr PNone) of
             Inl x \<Rightarrow> Inl x
           | Inr f \<Rightarrow>
               if filter_find_job \<and> f = PStr ''saltutil.find_job''
               then get_jids_filter_loop e count filter_find_job rest keys ret
               else
                 (let i = bisect keys jid in
                  if int (length keys) = count \<and> i = 0
                  then get_jids_filter_loop e count filter_find_job rest keys ret
                  else
                    (let keys1 = list_insert i jid keys;
                         ret1 = list_insert i job ret
                     in if int (length keys1) > count
                        then get_jids_filter_loop e count filter_find_job rest (tl keys1) (tl ret1)
                        else get_jids_filter_loop e count filter_find_job rest keys1 ret1))))"

definition get_jids_filter :: "env \<Rightarrow> world \<Rightarrow> int \<Rightarrow> bool \<Rightarrow> exn + pyval list" where
  "get_jids_filter e w count filter_find_job =
     (case walk_through e w (job_dir e) of
        Inl x \<Rightarrow> Inl x
      | Inr jobs \<Rightarrow> get_jids_filter_loop e count filter_find_job jobs [] [])"

subsection \<open>clean\_old\_jobs\<close>




subsection \<open>update\_endtime and get\_endtime\<close>

text \<open>
  \<open>update_endtime(jid, time)\<close>: the world after the call and what was logged.  Only an
  \<open>IOError\<close> is caught; an \<open>OSError\<close> of \<open>os.makedirs\<close> is raised.
\<close>

definition update_endtime :: "env \<Rightarrow> world \<Rightarrow> string \<Rightarrow> string \<Rightarrow> exn + (world \<times> logrec list)" where
  "update_endtime e w jid time =
     (let jid_dir' = jid_dir e jid in
      case (if \<not> os_path_exists w jid_dir' then os_makedirs w jid_dir' else Inr w) of
        Inl (IOError en n) \<Rightarrow>
          Inr (w, [LogWarning (''Could not write job invocation cache file: ''
                                @ exc_str (IOError en n))])
      | Inl x \<Rightarrow> Inl x
      | Inr w1 \<Rightarrow>
          (case write_file w1 (os_path_join jid_dir' [ENDTIME]) time of
             Inl (IOError en n) \<Rightarrow>
               Inr (w1, [LogWarning (''Could not write job invocation cache file: ''
                                      @ exc_str (IOError en n))])
           | Inl x \<Rightarrow> Inl x
           | Inr w2 \<Rightarrow> Inr (w2, [])))"

text \<open>\<open>get_endtime(jid)\<close>: \<open>False\<close> when there is no file, the stripped text otherwise.\<close>

definition get_endtime :: "env \<Rightarrow> world \<Rightarrow> string \<Rightarrow> exn + pyval" where
  "get_endtime e w jid =
     (let jid_dir' = jid_dir e jid;
          etpath = os_path_join jid_dir' [ENDTIME]
      in if \<not> os_path_exists w etpath then Inr (PBool False)
         else
           (case read_file w etpath of
              Inl x \<Rightarrow> Inl x
            | Inr d \<Rightarrow> Inr (PStr (strip_nl d))))"

subsection \<open>A small environment for the examples\<close>

text \<open>
  A toy serializer: \<open>s\<close> followed by text is that string, \<open>j\<close> followed by a job id is
  an invocation record of \<open>test.ping\<close> with that id, \<open>f\<close> followed by a job id one of
  \<open>saltutil.find_job\<close>; the decoder rejects everything else.
\<close>

definition demo_dumps :: "pyval \<Rightarrow> string" where
  "demo_dumps v = (case v of PStr t \<Rightarrow> CHR ''s'' # t | _ \<Rightarrow> ''n'')"

definition demo_loads :: "string \<Rightarrow> exn + pyval" where
  "demo_loads d =
     (case d of
        [] \<Rightarrow> Inl (OtherError ''unpack failed'')
      | c # t \<Rightarrow>
          if c = CHR ''s'' then Inr (PStr t)
          else if c = CHR ''n'' then Inr PNone
          else if c = CHR ''j'' then Inr (PDict [(''jid'', PStr t), (''fun'', PStr ''test.ping'')])
          else if c = CHR ''f''
            then Inr (PDict [(''jid'', PStr t), (''fun'', PStr ''saltutil.find_job'')])
          else Inl (OtherError ''unpack failed''))"

definition demo_format :: "string \<Rightarrow> pyval \<Rightarrow> exn + pyval" where
  "demo_format jid job =
     (case py_getitem job ''fun'' of
        Inl x \<Rightarrow> Inl x
      | Inr f \<Rightarrow> Inr (PDict [(''Function'', f), (''JID'', PStr jid)]))"

definition demo_env :: env where
  "demo_env = \<lparr>cachedir = ''/c'', hash_type = ''md5'', keep_jobs = 24,
     hexdigest = demo_digest, dumps = demo_dumps, loads = demo_loads,
     format_jid_instance_ext = demo_format\<rparr>"

text \<open>The cache after \<open>prep_jid\<close> reserved the job \<open>j1\<close> at time 100.\<close>

definition demo_world :: world where
  "demo_world = \<lparr>files =
      [([''c''], Dir), ([''c'', ''jobs''], Dir), ([''c'', ''jobs'', ''aa''], Dir),
       ([''c'', ''jobs'', ''aa'', ''01''], Dir),
       ([''c'', ''jobs'', ''aa'', ''01'', ''jid''], File 100 True ''j1'')],
     clock = 200\<rparr>"

text \<open>The same cache after the minion called \<open>nocache\<close> returned for \<open>j1\<close> at time 200.\<close>

definition demo_world_nc :: world where
  "demo_world_nc = \<lparr>files =
      [([''c''], Dir), ([''c'', ''jobs''], Dir), ([''c'', ''jobs'', ''aa''], Dir),
       ([''c'', ''jobs'', ''aa'', ''01''], Dir),
       ([''c'', ''jobs'', ''aa'', ''01'', ''jid''], File 100 True ''j1''),
       ([''c'', ''jobs'', ''aa'', ''01'', ''nocache''], Dir),
       ([''c'', ''jobs'', ''aa'', ''01'', ''nocache'', ''return.p''], File 200 True ''sa'')],
     clock = 200\<rparr>"

text \<open>And after the minion called \<open>m1\<close> returned for \<open>j1\<close> at time 200.\<close>

definition demo_world_m1 :: world where
  "demo_world_m1 = \<lparr>files =
      [([''c''], Dir), ([''c'', ''jobs''], Dir), ([''c'', ''jobs'', ''aa''], Dir),
       ([''c'', ''jobs'', ''aa'', ''01''], Dir),
       ([''c'', ''jobs'', ''aa'', ''01'', ''jid''], File 100 True ''j1''),
       ([''c'', ''jobs'', ''aa'', ''01'', ''m1''], Dir),
       ([''c'', ''jobs'', ''aa'', ''01'', ''m1'', ''return.p''], File 200 True ''sa'')],
     clock = 200\<rparr>"

definition demo_load :: "string \<Rightarrow> string \<Rightarrow> load" where
  "demo_load i r =
     \<lparr>l_jid = ''j1'', l_id = i, l_return = PStr r, l_out = None, l_nocache = None\<rparr>"

text \<open>A file name: one component of a path.\<close>

definition plain :: "string \<Rightarrow> bool" where
  "plain b = (b \<noteq> [] \<and> CHR ''/'' \<notin> set b)"

text \<open>A cache where a regular file stands in the place of the shard directory \<open>aa\<close>.\<close>

definition demo_world_blocked :: world where
  "demo_world_blocked = \<lparr>files =
      [([''c''], Dir), ([''c'', ''jobs''], Dir), ([''c'', ''jobs'', ''aa''], File 50 True [])],
     clock = 200\<rparr>"

text \<open>
  A world after the job directory of \<open>j2\<close> was made at time 200 with one file in it.
\<close>

definition demo_world_j2 :: "string \<Rightarrow> string \<Rightarrow> world \<Rightarrow> world" where
  "demo_world_j2 name d w =
     w\<lparr>files := files w @
        [([''c'', ''jobs'', ''bb''], Dir), ([''c'', ''jobs'', ''bb'', ''02''], Dir),
         ([''c'', ''jobs'', ''bb'', ''02'', name], File 200 True d)]\<rparr>"

text \<open>
  The job \<open>j1\<close> with the results of two minions, \<open>.hid\<close> and \<open>m1\<close>; the mode and the
  bytes of \<open>m1/return.p\<close> are parameters.
\<close>

definition demo_world_res :: "bool \<Rightarrow> string \<Rightarrow> world" where
  "demo_world_res ok d = \<lparr>files =
      [([''c''], Dir), ([''c'', ''jobs''], Dir), ([''c'', ''jobs'', ''aa''], Dir),
       ([''c'', ''jobs'', ''aa'', ''01''], Dir),
       ([''c'', ''jobs'', ''aa'', ''01'', ''jid''], File 100 True ''j1''),
       ([''c'', ''jobs'', ''aa'', ''01'', ''.hid''], Dir),
       ([''c'', ''jobs'', ''aa'', ''01'', ''.hid'', ''return.p''], File 150 True ''sb''),
       ([''c'', ''jobs'', ''aa'', ''01'', ''m1''], Dir),
       ([''c'', ''jobs'', ''aa'', ''01'', ''m1'', ''return.p''], File 150 ok d)],
     clock = 200\<rparr>"

text \<open>The last \<open>n\<close> elements of a list.\<close>

definition recent :: "nat \<Rightarrow> 'a list \<Rightarrow> 'a list" where
  "recent n xs = drop (length xs - n) xs"

text \<open>
  A cache with three jobs: \<open>j1\<close> (reserved at time 100), \<open>j3\<close> (reserved at time
  50000) and \<open>j2\<close>, a \<open>saltutil.find_job\<close> job whose directory has no \<open>jid\<close> file.
  The tuples the walk yields there, and the summary and the function of each job id.
\<close>

definition demo_world_jobs :: world where
  "demo_world_jobs = \<lparr>files =
      [([''c''], Dir), ([''c'', ''jobs''], Dir), ([''c'', ''jobs'', ''aa''], Dir),
       ([''c'', ''jobs'', ''aa'', ''01''], Dir),
       ([''c'', ''jobs'', ''aa'', ''01'', ''jid''], File 100 True ''j1''),
       ([''c'', ''jobs'', ''aa'', ''01'', ''.load.p''], File 100 True ''jj1''),
       ([''c'', ''jobs'', ''aa'', ''03''], Dir),
       ([''c'', ''jobs'', ''aa'', ''03'', ''jid''], File 50000 True ''j3''),
       ([''c'', ''jobs'', ''aa'', ''03'', ''.load.p''], File 50000 True ''jj3''),
       ([''c'', ''jobs'', ''bb''], Dir),
       ([''c'', ''jobs'', ''bb'', ''02''], Dir),
       ([''c'', ''jobs'', ''bb'', ''02'', ''.load.p''], File 200 True ''fj2'')],
     clock = 100000\<rparr>"

definition demo_func :: "string \<Rightarrow> pyval" where
  "demo_func j = PStr (if j = ''j2'' then ''saltutil.find_job'' else ''test.ping'')"

definition demo_summ :: "string \<Rightarrow> pyval" where
  "demo_summ j = PDict [(''Function'', demo_func j), (''JID'', PStr j)]"

definition demo_jobs :: "(string \<times> pyval \<times> string \<times> string) list" where
  "demo_jobs =
     [(''j1'', PDict [(''jid'', PStr ''j1''), (''fun'', PStr ''test.ping'')], ''/c/jobs/aa'', ''01''),
      (''j3'', PDict [(''jid'', PStr ''j3''), (''fun'', PStr ''test.ping'')], ''/c/jobs/aa'', ''03''),
      (''j2'', PDict [(''jid'', PStr ''j2''), (''fun'', PStr ''saltutil.find_job'')],
         ''/c/jobs/bb'', ''02'')]"

text \<open>
  Words to state what \<open>clean_old_jobs\<close> does.  The creation time of the reservation
  marker of a directory \<open>d\<close>: the time of the regular file \<open>jid\<close> in it, if there is one.
\<close>

definition marker_ctime :: "world \<Rightarrow> string list \<Rightarrow> real option" where
  "marker_ctime w d =
     (case node_at w (d @ [''jid'']) of Some (File t ok dat) \<Rightarrow> Some t | _ \<Rightarrow> None)"





section \<open>Properties\<close>

subsection \<open>Paths: lemmas\<close>

lemma job_dir_eq: "job_dir e = join2 (cachedir e) ''jobs''"
  by (simp add: job_dir_def os_path_join_def)

lemma job_dir_last: "job_dir e \<noteq> [] \<and> last (job_dir e) = CHR ''s''"
  by (simp add: job_dir_eq join2_def startswith_def)

lemma hexdigest_no_slash:
  assumes "is_hexdigest s"
  shows "CHR ''/'' \<notin> set s"
proof
  assume "CHR ''/'' \<in> set s"
  with assms have "CHR ''/'' \<in> set ''0123456789abcdef''"
    by (auto simp: is_hexdigest_def list_all_iff)
  then show False by simp
qed

lemma not_startswith_slash:
  assumes "CHR ''/'' \<notin> set b"
  shows "\<not> startswith b ''/''"
  using assms by (cases b) (auto simp: startswith_def)

text \<open>
  C8.  The job directory is a function of the job id, the cache root and the digest
  alone: two environments that agree on the cache root and on the digest of the job id
  give the same path.  When the digest is a hex digest, the path is the jobs root, a
  slash, the first two digest characters, a slash, and the remaining digest characters.
\<close>

theorem jid_dir_pure_sharded:
  "(cachedir e1 = cachedir e2 \<and>
      hexdigest e1 (hash_type e1) jid = hexdigest e2 (hash_type e2) jid
      \<longrightarrow> jid_dir e1 jid = jid_dir e2 jid)
   \<and> (is_hexdigest (hexdigest e (hash_type e) jid)
      \<longrightarrow> jid_dir e jid =
            job_dir e @ ''/'' @ take 2 (hexdigest e (hash_type e) jid)
                      @ ''/'' @ drop 2 (hexdigest e (hash_type e) jid))"
proof (intro conjI impI)
  assume "cachedir e1 = cachedir e2 \<and>
    hexdigest e1 (hash_type e1) jid = hexdigest e2 (hash_type e2) jid"
  then show "jid_dir e1 jid = jid_dir e2 jid"
    by (simp add: jid_dir_def job_dir_def)
next
  let ?h = "hexdigest e (hash_type e) jid"
  assume hex: "is_hexdigest ?h"
  then have ns: "CHR ''/'' \<notin> set ?h" by (rule hexdigest_no_slash)
  from hex have ne: "?h \<noteq> []" by (simp add: is_hexdigest_def)
  have s1: "\<not> startswith (take 2 ?h) ''/''"
    using ns by (intro not_startswith_slash) (auto dest: in_set_takeD)
  have s2: "\<not> startswith (drop 2 ?h) ''/''"
    using ns by (intro not_startswith_slash) (auto dest: in_set_dropD)
  have t: "take 2 ?h \<noteq> []" using ne by (cases ?h) auto
  have "last (take 2 ?h) \<in> set (take 2 ?h)" using t by (rule last_in_set)
  then have "last (take 2 ?h) \<in> set ?h" by (rule in_set_takeD)
  with ns have l: "last (take 2 ?h) \<noteq> CHR ''/''" by auto
  have first: "join2 (job_dir e) (take 2 ?h) = job_dir e @ ''/'' @ take 2 ?h"
    using s1 job_dir_last[of e] by (simp add: join2_def)
  have "join2 (job_dir e @ ''/'' @ take 2 ?h) (drop 2 ?h)
        = (job_dir e @ ''/'' @ take 2 ?h) @ ''/'' @ drop 2 ?h"
    using s2 t l by (simp add: join2_def)
  with first show "jid_dir e jid = job_dir e @ ''/'' @ take 2 ?h @ ''/'' @ drop 2 ?h"
    by (simp add: jid_dir_def os_path_join_def Let_def)
qed

lemma demo_env_fields:
  "cachedir demo_env = ''/c''" "hash_type demo_env = ''md5''" "keep_jobs demo_env = 24"
  "hexdigest demo_env = demo_digest" "dumps demo_env = demo_dumps" "loads demo_env = demo_loads"
  "format_jid_instance_ext demo_env = demo_format"
  by (simp_all add: demo_env_def)

lemmas eval_path = jid_dir_def job_dir_def demo_env_fields demo_digest_def os_path_join_def
  join2_def startswith_def components_def Let_def

lemmas eval_fs = os_path_exists_def os_path_isdir_def os_path_isfile_def node_at_def
  os_makedirs_def makedirs_c.simps mkdir_c_def put_def atomic_write_def write_file_def
  read_file_def os_listdir_def shutil_rmtree_def st_ctime_def serial_load_def
  absent_errno_def

lemma demo_jid_dirs:
  "jid_dir demo_env ''j1'' = ''/c/jobs/aa/01''"
  "jid_dir demo_env ''j2'' = ''/c/jobs/bb/02''"
  "jid_dir demo_env ''j3'' = ''/c/jobs/aa/03''"
  by (simp_all add: eval_path)

theorem jid_dir_pure_sharded_witness:
  "cachedir demo_env = cachedir (demo_env\<lparr>keep_jobs := 0\<rparr>)
   \<and> hexdigest demo_env (hash_type demo_env) ''j1''
       = hexdigest (demo_env\<lparr>keep_jobs := 0\<rparr>) (hash_type (demo_env\<lparr>keep_jobs := 0\<rparr>)) ''j1''
   \<and> jid_dir demo_env ''j1'' = jid_dir (demo_env\<lparr>keep_jobs := 0\<rparr>) ''j1''
   \<and> is_hexdigest (hexdigest demo_env (hash_type demo_env) ''j1'')
   \<and> jid_dir demo_env ''j1'' = ''/c/jobs/aa/01''"
  using jid_dir_pure_sharded [of demo_env "demo_env\<lparr>keep_jobs := 0\<rparr>" "''j1''" demo_env]
  by (auto simp: demo_env_fields demo_digest_def is_hexdigest_def job_dir_eq join2_def
        startswith_def)

subsection \<open>Components of joined paths\<close>

lemma comps_append: "comps cur (x @ CHR ''/'' # y) = comps cur x @ comps [] y"
  by (induction x arbitrary: cur) auto

lemma comps_plain: "CHR ''/'' \<notin> set b \<Longrightarrow> cur @ b \<noteq> [] \<Longrightarrow> comps cur b = [cur @ b]"
  by (induction b arbitrary: cur) auto

lemma components_join2:
  assumes "plain b"
  shows "components (join2 a b) = components a @ [b]"
proof -
  from assms have ns: "\<not> startswith b ''/''" by (simp add: plain_def not_startswith_slash)
  from assms have cb: "comps [] b = [b]" by (simp add: plain_def comps_plain)
  show ?thesis
  proof (cases "a = []")
    case True
    then show ?thesis using ns cb by (simp add: join2_def components_def)
  next
    case False
    show ?thesis
    proof (cases "last a = CHR ''/''")
      case True
      with False have a: "a = butlast a @ [CHR ''/'']" by (metis append_butlast_last_id)
      have "comps [] (butlast a @ CHR ''/'' # b) = comps [] (butlast a) @ comps [] b"
        by (rule comps_append)
      moreover have "comps [] (butlast a @ CHR ''/'' # []) = comps [] (butlast a) @ comps [] []"
        by (rule comps_append)
      moreover have "join2 a b = butlast a @ CHR ''/'' # b"
        using ns True False a by (simp add: join2_def)
      ultimately show ?thesis using a cb by (simp add: components_def)
    next
      case lf: False
      then show ?thesis using ns False cb comps_append[of "[]" a b]
        by (simp add: join2_def components_def)
    qed
  qed
qed



subsection \<open>The file system: lemmas\<close>

lemma node_at_put:
  "cs \<noteq> [] \<Longrightarrow> node_at (put w cs n) q = (if q = cs then Some n else node_at w q)"
  by (simp add: node_at_def put_def update_conv')

lemma clock_put: "clock (put w cs n) = clock w"
  by (simp add: put_def)

lemma mkdir_c_Inr:
  assumes "mkdir_c w name cs = Inr w'"
  shows "cs \<noteq> [] \<and> node_at w cs = None \<and> node_at w (butlast cs) = Some Dir \<and> w' = put w cs Dir"
proof -
  from assms have n: "node_at w cs = None"
    by (auto simp: mkdir_c_def split: if_splits)
  then have ne: "cs \<noteq> []" by (auto simp: node_at_def)
  from assms n have "node_at w (butlast cs) = Some Dir \<and> w' = put w cs Dir"
    by (auto simp: mkdir_c_def split: option.splits node.splits)
  with n ne show ?thesis by simp
qed

lemma makedirs_c_Inr:
  "makedirs_c w name cs = Inr w' \<Longrightarrow>
     cs \<noteq> [] \<and> node_at w' cs = Some Dir \<and> node_at w' (butlast cs) = Some Dir
     \<and> clock w' = clock w
     \<and> (\<forall>q. node_at w q \<noteq> None \<longrightarrow> node_at w' q = node_at w q)
     \<and> (\<forall>q. \<not> prefix q cs \<longrightarrow> node_at w' q = node_at w q)"
proof (induction w name cs arbitrary: w' rule: makedirs_c.induct)
  case (1 w name cs)
  show ?case
  proof (cases "cs \<noteq> [] \<and> node_at w (butlast cs) = None")
    case True
    then have missing: "node_at w (butlast cs) = None" and ne: "cs \<noteq> []" by simp_all
    have nomk: "\<And>v. mkdir_c w name cs \<noteq> Inr v"
      using missing by (auto dest: mkdir_c_Inr)
    from "1.prems" True nomk obtain w1 where
      r: "makedirs_c w name (butlast cs) = Inr w1" and m: "mkdir_c w1 name cs = Inr w'"
      by (subst (asm) makedirs_c.simps) (auto split: sum.splits exn.splits if_splits)
    from "1.IH"[OF True r] have ih:
      "node_at w1 (butlast cs) = Some Dir" "clock w1 = clock w"
      "\<forall>q. node_at w q \<noteq> None \<longrightarrow> node_at w1 q = node_at w q"
      "\<forall>q. \<not> prefix q (butlast cs) \<longrightarrow> node_at w1 q = node_at w q"
      by simp_all
    from mkdir_c_Inr[OF m] have mk: "node_at w1 cs = None" "w' = put w1 cs Dir" by simp_all
    have bl: "butlast cs \<noteq> cs" using ne by (metis append_butlast_last_id append_self_conv not_Cons_self2)
    have a: "node_at w' cs = Some Dir" using mk ne by (simp add: node_at_put)
    have b: "node_at w' (butlast cs) = Some Dir" using mk ne bl ih(1) by (simp add: node_at_put)
    have c: "clock w' = clock w" using mk ih(2) by (simp add: clock_put)
    have d: "\<forall>q. node_at w q \<noteq> None \<longrightarrow> node_at w' q = node_at w q"
    proof (intro allI impI)
      fix q assume q: "node_at w q \<noteq> None"
      with ih(3) have "node_at w1 q = node_at w q" by simp
      with q mk(1) have "q \<noteq> cs" by auto
      then show "node_at w' q = node_at w q"
        using mk(2) ne \<open>node_at w1 q = node_at w q\<close> by (simp add: node_at_put)
    qed
    have e: "\<forall>q. \<not> prefix q cs \<longrightarrow> node_at w' q = node_at w q"
    proof (intro allI impI)
      fix q assume q: "\<not> prefix q cs"
      then have "q \<noteq> cs" by auto
      moreover from q have "\<not> prefix q (butlast cs)"
        by (metis prefix_order.order_trans prefixeq_butlast)
      ultimately show "node_at w' q = node_at w q"
        using mk(2) ne ih(4) by (simp add: node_at_put)
    qed
    from ne a b c d e show ?thesis by simp
  next
    case False
    with "1.prems" have m: "mkdir_c w name cs = Inr w'"
      by (subst (asm) makedirs_c.simps) simp
    from mkdir_c_Inr[OF m] have mk:
      "cs \<noteq> []" "node_at w cs = None" "node_at w (butlast cs) = Some Dir" "w' = put w cs Dir"
      by simp_all
    have bl: "butlast cs \<noteq> cs" using mk(1) by (metis append_butlast_last_id append_self_conv not_Cons_self2)
    show ?thesis using mk bl by (auto simp: node_at_put clock_put)
  qed
qed

lemma makedirs_c_exists:
  assumes "node_at w cs \<noteq> None" and "node_at w (butlast cs) \<noteq> None"
  shows "makedirs_c w name cs = Inl (OSError EEXIST name)"
  using assms by (subst makedirs_c.simps) (auto simp: mkdir_c_def)

lemma atomic_write_Inr:
  assumes "atomic_write w name d = Inr w'"
  shows "components name \<noteq> [] \<and> w' = put w (components name) (File (clock w) True d)"
proof -
  have "components name \<noteq> []"
  proof
    assume "components name = []"
    with assms show False by (simp add: atomic_write_def node_at_def)
  qed
  moreover from assms have "w' = put w (components name) (File (clock w) True d)"
    by (auto simp: atomic_write_def Let_def split: option.splits node.splits)
  ultimately show ?thesis by simp
qed

lemma plain_names: "plain RETURN_P" "plain OUT_P" "plain ''nocache''" "plain ''jid''"
  "plain ENDTIME" "plain LOAD_P"
  by (simp_all add: plain_def RETURN_P_def OUT_P_def ENDTIME_def LOAD_P_def)

lemma components_join1:
  "plain b \<Longrightarrow> components (os_path_join a [b]) = components a @ [b]"
  by (simp add: os_path_join_def components_join2)

lemma returner_not_req:
  assumes "l_jid ld \<noteq> ''req''"
  shows "returner e w ld cands =
     (if os_path_exists w (os_path_join (jid_dir e (l_jid ld)) [''nocache''])
      then Inr (RNone, w, [])
      else
        (case os_makedirs w (os_path_join (jid_dir e (l_jid ld)) [l_id ld]) of
           Inl x \<Rightarrow>
             (if x = OSError EEXIST (os_path_join (jid_dir e (l_jid ld)) [l_id ld])
              then Inr (RFalse, w, [LogError (replay_msg (l_id ld))])
              else (case x of OSError en n \<Rightarrow>
                (case returner_except ld en n of Inl x \<Rightarrow> Inl x | Inr (r, lg) \<Rightarrow> Inr (r, w, lg))
                 | _ \<Rightarrow> Inl x))
         | Inr w1 \<Rightarrow>
             (case atomic_write w1
                     (os_path_join (os_path_join (jid_dir e (l_jid ld)) [l_id ld]) [RETURN_P])
                     (dumps e (l_return ld)) of
                Inl x \<Rightarrow> Inl x
              | Inr w2 \<Rightarrow>
                  (case l_out ld of
                     None \<Rightarrow> Inr (RNone, w2, [])
                   | Some out \<Rightarrow>
                       (case atomic_write w2
                               (os_path_join (os_path_join (jid_dir e (l_jid ld)) [l_id ld]) [OUT_P])
                               (dumps e out) of
                          Inl x \<Rightarrow> Inl x
                        | Inr w3 \<Rightarrow> Inr (RNone, w3, []))))))"
  using assms
  by (auto simp: returner_def Let_def returner_except_def split: sum.splits exn.splits)


subsection \<open>returner: replay and inconsistency\<close>

text \<open>
  C1 (amended).  Let a first call of \<open>returner\<close> for job id J (not the request sentinel
  \<open>'req'\<close>) and worker id W return \<open>None\<close>.  A second call with the same J and W, whatever
  its payload, leaves the world as the first call left it (it writes nothing), and
  returns \<open>False\<close> and logs the replay, unless the path \<open>nocache\<close> exists in the job
  directory after the first call, in which case it returns \<open>None\<close>.  When that path
  did not exist before the first call, the file \<open>return.p\<close> of the worker holds the
  first call's payload.
\<close>

theorem returner_replay:
  assumes first: "returner e w ld cands = Inr (RNone, w1, lg1)"
    and nreq: "l_jid ld \<noteq> ''req''"
    and same: "l_jid ld2 = l_jid ld" "l_id ld2 = l_id ld"
  shows "returner e w1 ld2 cands2 =
           (if os_path_exists w1 (os_path_join (jid_dir e (l_jid ld)) [''nocache''])
            then Inr (RNone, w1, [])
            else Inr (RFalse, w1, [LogError (replay_msg (l_id ld))]))
         \<and> (\<not> os_path_exists w (os_path_join (jid_dir e (l_jid ld)) [''nocache''])
              \<longrightarrow> read_file w1
                     (os_path_join (os_path_join (jid_dir e (l_jid ld)) [l_id ld]) [RETURN_P])
                   = Inr (dumps e (l_return ld)))"
proof -
  let ?NC = "os_path_join (jid_dir e (l_jid ld)) [''nocache'']"
  let ?HN = "os_path_join (jid_dir e (l_jid ld)) [l_id ld]"
  let ?RP = "os_path_join ?HN [RETURN_P]"
  let ?OP = "os_path_join ?HN [OUT_P]"
  let ?hn = "components ?HN"
  have nreq2: "l_jid ld2 \<noteq> ''req''" using nreq same by simp
  have rp: "components ?RP = ?hn @ [RETURN_P]" by (simp add: components_join1 plain_names)
  have op: "components ?OP = ?hn @ [OUT_P]" by (simp add: components_join1 plain_names)
  show ?thesis
  proof (cases "os_path_exists w ?NC")
    case True
    with first nreq have "w1 = w" by (simp add: returner_not_req)
    with True show ?thesis using nreq2 same by (simp add: returner_not_req)
  next
    case False
    from first nreq False obtain wa wb where
      mk: "os_makedirs w ?HN = Inr wa" and
      wr: "atomic_write wa ?RP (dumps e (l_return ld)) = Inr wb" and
      out: "(l_out ld = None \<and> w1 = wb) \<or>
            (\<exists>out. l_out ld = Some out \<and> atomic_write wb ?OP (dumps e out) = Inr w1)"
      by (auto simp: returner_not_req returner_except_def
               split: sum.splits exn.splits if_splits option.splits)
    from mk have "makedirs_c w ?HN ?hn = Inr wa" by (simp add: os_makedirs_def)
    from makedirs_c_Inr[OF this] have a:
      "?hn \<noteq> []" "node_at wa ?hn = Some Dir" "node_at wa (butlast ?hn) = Some Dir"
      by simp_all
    have neq1: "butlast ?hn \<noteq> ?hn @ [RETURN_P]" "butlast ?hn \<noteq> ?hn @ [OUT_P]"
      by (metis length_butlast length_append_singleton diff_Suc_1 Suc_n_not_le_n diff_le_self)+
    from atomic_write_Inr[OF wr] rp
    have wb: "wb = put wa (?hn @ [RETURN_P]) (File (clock wa) True (dumps e (l_return ld)))"
      by simp
    have b: "node_at wb ?hn = Some Dir" "node_at wb (butlast ?hn) = Some Dir"
      "node_at wb (?hn @ [RETURN_P]) = Some (File (clock wa) True (dumps e (l_return ld)))"
      using a neq1 by (simp_all add: wb node_at_put)
    have c: "node_at w1 ?hn = Some Dir \<and> node_at w1 (butlast ?hn) = Some Dir \<and>
      node_at w1 (?hn @ [RETURN_P]) = Some (File (clock wa) True (dumps e (l_return ld)))"
    proof -
      from out show ?thesis
      proof
        assume "l_out ld = None \<and> w1 = wb"
        with b show ?thesis by simp
      next
        assume "\<exists>out. l_out ld = Some out \<and> atomic_write wb ?OP (dumps e out) = Inr w1"
        then obtain out where o: "atomic_write wb ?OP (dumps e out) = Inr w1" by blast
        from atomic_write_Inr[OF o] op
        have "w1 = put wb (?hn @ [OUT_P]) (File (clock wb) True (dumps e out))" by simp
        then show ?thesis using b neq1 by (simp add: node_at_put RETURN_P_def OUT_P_def)
      qed
    qed
    have second: "os_makedirs w1 ?HN = Inl (OSError EEXIST ?HN)"
      using c by (simp add: os_makedirs_def makedirs_c_exists)
    have rd: "read_file w1 ?RP = Inr (dumps e (l_return ld))"
      using c rp by (simp add: read_file_def)
    show ?thesis using second rd nreq2 same by (simp add: returner_not_req)
  qed
qed


theorem returner_replay_witness:
  "returner demo_env demo_world (demo_load ''m1'' ''a'') [] = Inr (RNone, demo_world_m1, [])
   \<and> l_jid (demo_load ''m1'' ''a'') \<noteq> ''req''
   \<and> returner demo_env demo_world_m1 (demo_load ''m1'' ''b'') []
       = Inr (RFalse, demo_world_m1, [LogError (replay_msg ''m1'')])
   \<and> \<not> os_path_exists demo_world ''/c/jobs/aa/01/nocache''
   \<and> read_file demo_world_m1 ''/c/jobs/aa/01/m1/return.p'' = Inr ''sa''"
proof -
  have first: "returner demo_env demo_world (demo_load ''m1'' ''a'') []
                 = Inr (RNone, demo_world_m1, [])"
    by (simp add: returner_def demo_load_def demo_jid_dirs demo_world_def demo_world_m1_def
          eval_fs RETURN_P_def Let_def os_path_join_def join2_def startswith_def components_def
          demo_env_fields demo_dumps_def)
  have nreq: "l_jid (demo_load ''m1'' ''a'') \<noteq> ''req''" by (simp add: demo_load_def)
  have nc: "\<not> os_path_exists demo_world_m1 ''/c/jobs/aa/01/nocache''"
    "\<not> os_path_exists demo_world ''/c/jobs/aa/01/nocache''"
    by (simp_all add: demo_world_m1_def demo_world_def os_path_exists_def node_at_def
          components_def)
  from returner_replay [OF first nreq, of "demo_load ''m1'' ''b''" "[]"] nc first nreq
  show ?thesis
    by (simp add: demo_load_def demo_jid_dirs os_path_join_def join2_def startswith_def
          RETURN_P_def demo_env_fields demo_dumps_def)
qed

text \<open>
  The claim as stated fails for the worker id \<open>nocache\<close>: the first call makes the
  directory \<open>nocache\<close> in the job directory, and the second call, finding that path,
  returns \<open>None\<close>, not \<open>False\<close>.
\<close>

theorem returner_replay_counterexample:
  "returner demo_env demo_world (demo_load ''nocache'' ''a'') [] = Inr (RNone, demo_world_nc, [])
   \<and> returner demo_env demo_world_nc (demo_load ''nocache'' ''a'') []
       = Inr (RNone, demo_world_nc, [])"
  by (simp add: returner_def demo_load_def demo_jid_dirs demo_world_def demo_world_nc_def
        eval_fs RETURN_P_def Let_def os_path_join_def join2_def startswith_def components_def
        demo_env_fields demo_dumps_def)

text \<open>
  C2 (amended).  When \<open>os.makedirs\<close> of the worker directory fails, the handler returns
  \<open>False\<close> both for \<open>EEXIST\<close> (a replay) and for \<open>ENOENT\<close> (the inconsistency); the two
  cases differ in the message logged, not in the value returned.
\<close>

theorem returner_except_values:
  "returner_except ld EEXIST n = Inr (RFalse, [LogError (replay_msg (l_id ld))])
   \<and> returner_except ld ENOENT n = Inr (RFalse, [LogError (inconsistency_msg (l_jid ld))])"
  by (simp add: returner_except_def)

text \<open>
  The claim as stated fails: for the load of worker \<open>m1\<close> and job \<open>j1\<close> the value
  returned for the inconsistency is the value returned for the replay.
\<close>

theorem returner_except_counterexample:
  "map_sum id fst (returner_except (demo_load ''m1'' ''a'') ENOENT ''/c/jobs/aa/01/m1'')
   = map_sum id fst (returner_except (demo_load ''m1'' ''a'') EEXIST ''/c/jobs/aa/01/m1'')"
  by (simp add: returner_except_def)

subsection \<open>prep\_jid: properties\<close>

lemma write_file_Inr:
  assumes "write_file w name d = Inr w'"
  shows "components name \<noteq> [] \<and> w' = put w (components name) (File (clock w) True d)"
proof -
  have ne: "components name \<noteq> []"
  proof
    assume "components name = []"
    with assms show False by (simp add: write_file_def node_at_def)
  qed
  from assms have "w' = put w (components name) (File (clock w) True d)"
    by (auto simp: write_file_def Let_def split: option.splits node.splits if_splits)
  with ne show ?thesis by simp
qed

lemma prep_jid_write_Inr:
  assumes "prep_jid_write e w0 nocache J = Inr (J', w')"
  shows "J' = J
    \<and> node_at w' (components (jid_dir e J) @ [''jid'']) = Some (File (clock w0) True J)
    \<and> (nocache \<longrightarrow>
         node_at w' (components (jid_dir e J) @ [''nocache'']) = Some (File (clock w0) True []))
    \<and> (\<not> nocache \<longrightarrow>
         node_at w' (components (jid_dir e J) @ [''nocache''])
           = node_at w0 (components (jid_dir e J) @ [''nocache'']))"
proof -
  let ?jd = "components (jid_dir e J)"
  have cj: "components (os_path_join (jid_dir e J) [''jid'']) = ?jd @ [''jid'']"
    and cn: "components (os_path_join (jid_dir e J) [''nocache'']) = ?jd @ [''nocache'']"
    by (simp_all add: components_join1 plain_names)
  from assms obtain w1 where
    w1: "write_file w0 (os_path_join (jid_dir e J) [''jid'']) J = Inr w1"
    by (auto simp: prep_jid_write_def Let_def split: sum.splits)
  from write_file_Inr[OF w1] cj have p1: "w1 = put w0 (?jd @ [''jid'']) (File (clock w0) True J)"
    by simp
  show ?thesis
  proof (cases nocache)
    case False
    with assms w1 have "J' = J" "w' = w1"
      by (auto simp: prep_jid_write_def Let_def)
    with p1 False show ?thesis by (simp add: node_at_put)
  next
    case True
    with assms w1 have j: "J' = J" and
      w2: "write_file w1 (os_path_join (jid_dir e J) [''nocache'']) [] = Inr w'"
      by (auto simp: prep_jid_write_def Let_def split: sum.splits)
    from write_file_Inr[OF w2] cn
    have "w' = put w1 (?jd @ [''nocache'']) (File (clock w1) True [])" by simp
    with p1 j True show ?thesis by (simp add: node_at_put clock_put)
  qed
qed

lemma makedirs_frame_child:
  assumes "os_makedirs w name = Inr w1"
  shows "node_at w1 (components name @ [b]) = node_at w (components name @ [b])"
proof -
  from assms have "makedirs_c w name (components name) = Inr w1" by (simp add: os_makedirs_def)
  from makedirs_c_Inr[OF this]
  have "\<forall>q. \<not> prefix q (components name) \<longrightarrow> node_at w1 q = node_at w q" by simp
  moreover have "\<not> prefix (components name @ [b]) (components name)"
    by (auto simp: prefix_def)
  ultimately show ?thesis by blast
qed

lemma prep_jid_post:
  assumes "prep_jid e w nocache passed cands = Inr (J, w')"
  shows "(case passed of Some j \<Rightarrow> J = j | None \<Rightarrow> J \<in> set cands)
    \<and> (\<exists>t. node_at w' (components (jid_dir e J) @ [''jid'']) = Some (File t True J))
    \<and> (nocache \<longrightarrow>
         (\<exists>t. node_at w' (components (jid_dir e J) @ [''nocache'']) = Some (File t True [])))
    \<and> (\<not> nocache \<longrightarrow>
         node_at w' (components (jid_dir e J) @ [''nocache''])
           = node_at w (components (jid_dir e J) @ [''nocache'']))"
  using assms
proof (induction e w nocache passed cands rule: prep_jid.induct)
  case (1 e w nocache jid cands)
  show ?case
  proof (cases "os_makedirs w (jid_dir e jid)")
    case (Inl x)
    with "1.prems" have "prep_jid_write e w nocache jid = Inr (J, w')"
      by (cases x) auto
    from prep_jid_write_Inr[OF this] show ?thesis by auto
  next
    case (Inr w1)
    with "1.prems" have "prep_jid_write e w1 nocache jid = Inr (J, w')" by simp
    from prep_jid_write_Inr[OF this] makedirs_frame_child[OF Inr, of "''nocache''"]
    show ?thesis by auto
  qed
next
  case (2 e w nocache)
  then show ?case by simp
next
  case (3 e w nocache jid cands)
  show ?case
  proof (cases "os_makedirs w (jid_dir e jid)")
    case (Inl x)
    with "3.prems" obtain en n where x: "x = OSError en n"
      and r: "prep_jid e w nocache None cands = Inr (J, w')"
      by (cases x) auto
    from "3.IH"[OF Inl x r] show ?thesis by auto
  next
    case (Inr w1)
    with "3.prems" have "prep_jid_write e w1 nocache jid = Inr (J, w')" by simp
    from prep_jid_write_Inr[OF this] makedirs_frame_child[OF Inr, of "''nocache''"]
    show ?thesis by auto
  qed
qed

text \<open>
  C7 (amended).  When \<open>prep_jid\<close> returns a job id J (the explicit id when one was
  passed, otherwise one of the generated ids), the file \<open>jid\<close> in the job directory of
  J exists and holds exactly J; when \<open>nocache\<close> was true the file \<open>nocache\<close> exists
  there and is empty; when \<open>nocache\<close> was false the path \<open>nocache\<close> exists after the
  call if and only if it existed before it.
\<close>

theorem prep_jid_markers:
  assumes "prep_jid e w nocache passed cands = Inr (J, w')"
  shows "(case passed of Some j \<Rightarrow> J = j | None \<Rightarrow> J \<in> set cands)
    \<and> os_path_isfile w' (os_path_join (jid_dir e J) [''jid''])
    \<and> read_file w' (os_path_join (jid_dir e J) [''jid'']) = Inr J
    \<and> (nocache \<longrightarrow> os_path_isfile w' (os_path_join (jid_dir e J) [''nocache''])
                 \<and> read_file w' (os_path_join (jid_dir e J) [''nocache'']) = Inr [])
    \<and> (\<not> nocache \<longrightarrow> os_path_exists w' (os_path_join (jid_dir e J) [''nocache''])
                     = os_path_exists w (os_path_join (jid_dir e J) [''nocache'']))"
proof -
  have cj: "components (os_path_join (jid_dir e J) [''jid'']) = components (jid_dir e J) @ [''jid'']"
    and cn: "components (os_path_join (jid_dir e J) [''nocache''])
               = components (jid_dir e J) @ [''nocache'']"
    by (simp_all add: components_join1 plain_names)
  from prep_jid_post[OF assms] show ?thesis
    by (auto simp: os_path_isfile_def read_file_def os_path_exists_def cj cn)
qed


lemmas eval_prep = prep_jid_write_def demo_jid_dirs eval_fs os_path_join_def join2_def
  startswith_def components_def Let_def

theorem prep_jid_markers_witness:
  "prep_jid demo_env demo_world False None [''j1'', ''j2'']
     = Inr (''j2'', demo_world_j2 ''jid'' ''j2'' demo_world)
   \<and> ''j2'' \<in> set [''j1'', ''j2'']
   \<and> os_path_isfile (demo_world_j2 ''jid'' ''j2'' demo_world) ''/c/jobs/bb/02/jid''
   \<and> read_file (demo_world_j2 ''jid'' ''j2'' demo_world) ''/c/jobs/bb/02/jid'' = Inr ''j2''
   \<and> \<not> os_path_exists (demo_world_j2 ''jid'' ''j2'' demo_world) ''/c/jobs/bb/02/nocache''"
proof -
  have run: "prep_jid demo_env demo_world False None [''j1'', ''j2'']
               = Inr (''j2'', demo_world_j2 ''jid'' ''j2'' demo_world)"
    by (simp add: eval_prep demo_world_def demo_world_j2_def)
  have "\<not> os_path_exists demo_world ''/c/jobs/bb/02/nocache''"
    by (simp add: demo_world_def os_path_exists_def node_at_def components_def)
  with prep_jid_markers [OF run] run show ?thesis
    by (simp add: demo_jid_dirs os_path_join_def join2_def startswith_def)
qed

text \<open>
  The claim as stated fails for an explicit id whose job directory already holds a
  \<open>nocache\<close> marker: the call with \<open>nocache\<close> false succeeds and the marker is there.
\<close>

theorem prep_jid_markers_counterexample:
  "prep_jid demo_env (put demo_world [''c'', ''jobs'', ''aa'', ''01'', ''nocache''] (File 100 True []))
       False (Some ''j1'') []
     = Inr (''j1'', put (put demo_world [''c'', ''jobs'', ''aa'', ''01'', ''nocache''] (File 100 True []))
                       [''c'', ''jobs'', ''aa'', ''01'', ''jid''] (File 200 True ''j1''))
   \<and> os_path_exists
        (put (put demo_world [''c'', ''jobs'', ''aa'', ''01'', ''nocache''] (File 100 True []))
             [''c'', ''jobs'', ''aa'', ''01'', ''jid''] (File 200 True ''j1''))
        (os_path_join (jid_dir demo_env ''j1'') [''nocache''])"
  by (simp add: eval_prep demo_world_def)

text \<open>
  C5.  The handler of \<open>prep_jid\<close> catches every \<open>OSError\<close>.  Here the shard directory of
  \<open>j1\<close> is a regular file, so \<open>os.makedirs\<close> fails with \<open>ENOTDIR\<close>: without an
  explicit id the call goes on to the next generated id and returns it; with the
  explicit id \<open>j1\<close> the error is dropped and the call goes on to open the \<open>jid\<close> file.
\<close>

theorem prep_jid_swallows_oserror:
  "os_makedirs demo_world_blocked (jid_dir demo_env ''j1'') = Inl (OSError ENOTDIR ''/c/jobs/aa/01'')
   \<and> prep_jid demo_env demo_world_blocked False None [''j1'', ''j2'']
       = Inr (''j2'', demo_world_j2 ''jid'' ''j2'' demo_world_blocked)
   \<and> prep_jid demo_env demo_world_blocked False (Some ''j1'') []
       = Inl (IOError ENOTDIR ''/c/jobs/aa/01/jid'')"
  by (simp add: eval_prep demo_world_blocked_def demo_world_j2_def)

subsection \<open>update\_endtime and get\_endtime: properties\<close>

lemma strip_nl_id:
  assumes "t = [] \<or> (hd t \<noteq> CHR 0x0A \<and> last t \<noteq> CHR 0x0A)"
  shows "strip_nl t = t"
proof (cases "t = []")
  case True
  then show ?thesis by (simp add: strip_nl_def)
next
  case False
  with assms have h: "hd t \<noteq> CHR 0x0A" and l: "last t \<noteq> CHR 0x0A" by simp_all
  from False h have "dropWhile (\<lambda>c. c = CHR 0x0A) t = t" by (cases t) simp_all
  moreover from False l have "dropWhile (\<lambda>c. c = CHR 0x0A) (rev t) = rev t"
    by (cases "rev t") (simp_all add: last_rev hd_rev[symmetric])
  ultimately show ?thesis by (simp add: strip_nl_def)
qed

text \<open>
  C10 (amended).  When \<open>update_endtime(J, t)\<close> returns without a warning, the job
  directory of J exists afterwards (as a directory, if it did not exist before), and
  \<open>get_endtime(J)\<close> returns \<open>t\<close> with the newlines at both ends removed; that is \<open>t\<close>
  itself when \<open>t\<close> neither starts nor ends with a newline.
\<close>

theorem update_then_get_endtime:
  assumes "update_endtime e w J t = Inr (w', [])"
  shows "get_endtime e w' J = Inr (PStr (strip_nl t))
     \<and> os_path_exists w' (jid_dir e J)
     \<and> (\<not> os_path_exists w (jid_dir e J) \<longrightarrow> os_path_isdir w' (jid_dir e J))
     \<and> (t = [] \<or> (hd t \<noteq> CHR 0x0A \<and> last t \<noteq> CHR 0x0A)
          \<longrightarrow> get_endtime e w' J = Inr (PStr t))"
proof -
  let ?jd = "components (jid_dir e J)"
  let ?ET = "os_path_join (jid_dir e J) [ENDTIME]"
  have ce: "components ?ET = ?jd @ [ENDTIME]" by (simp add: components_join1 plain_names)
  from assms obtain w1 where
    pre: "(if \<not> os_path_exists w (jid_dir e J) then os_makedirs w (jid_dir e J) else Inr w) = Inr w1"
    and wr: "write_file w1 ?ET t = Inr w'"
    by (auto simp: update_endtime_def Let_def split: sum.splits exn.splits)
  from write_file_Inr[OF wr] ce
  have w': "w' = put w1 (?jd @ [ENDTIME]) (File (clock w1) True t)" by simp
  have rd: "node_at w' (?jd @ [ENDTIME]) = Some (File (clock w1) True t)"
    by (simp add: w' node_at_put)
  have keep: "node_at w' ?jd = node_at w1 ?jd" by (simp add: w' node_at_put)
  have get: "get_endtime e w' J = Inr (PStr (strip_nl t))"
    using rd ce by (simp add: get_endtime_def os_path_exists_def read_file_def)
  have dir: "os_path_exists w' (jid_dir e J)
     \<and> (\<not> os_path_exists w (jid_dir e J) \<longrightarrow> os_path_isdir w' (jid_dir e J))"
  proof (cases "os_path_exists w (jid_dir e J)")
    case True
    with pre have "w1 = w" by simp
    with True keep show ?thesis by (simp add: os_path_exists_def)
  next
    case False
    with pre have "makedirs_c w (jid_dir e J) ?jd = Inr w1" by (simp add: os_makedirs_def)
    from makedirs_c_Inr[OF this] have "node_at w1 ?jd = Some Dir" by simp
    with keep show ?thesis by (simp add: os_path_exists_def os_path_isdir_def)
  qed
  from get dir show ?thesis by (simp add: strip_nl_id)
qed

theorem update_then_get_endtime_witness:
  "update_endtime demo_env demo_world ''j2'' ''2015''
     = Inr (demo_world_j2 ''endtime'' ''2015'' demo_world, [])
   \<and> get_endtime demo_env (demo_world_j2 ''endtime'' ''2015'' demo_world) ''j2'' = Inr (PStr ''2015'')
   \<and> \<not> os_path_exists demo_world (jid_dir demo_env ''j2'')
   \<and> os_path_isdir (demo_world_j2 ''endtime'' ''2015'' demo_world) (jid_dir demo_env ''j2'')"
proof -
  have run: "update_endtime demo_env demo_world ''j2'' ''2015''
               = Inr (demo_world_j2 ''endtime'' ''2015'' demo_world, [])"
    by (simp add: update_endtime_def eval_prep ENDTIME_def demo_world_def demo_world_j2_def)
  have "\<not> os_path_exists demo_world (jid_dir demo_env ''j2'')"
    by (simp add: demo_jid_dirs demo_world_def os_path_exists_def node_at_def components_def)
  with update_then_get_endtime [OF run] run show ?thesis
    by (simp add: strip_nl_def)
qed

text \<open>
  The claim as stated fails for a text that starts with a newline and does not end
  with one: \<open>get_endtime\<close> returns it without the leading newline.
\<close>

theorem update_then_get_endtime_counterexample:
  "update_endtime demo_env demo_world ''j2'' [CHR 0x0A, CHR ''5'']
     = Inr (demo_world_j2 ''endtime'' [CHR 0x0A, CHR ''5''] demo_world, [])
   \<and> last [CHR 0x0A, CHR ''5''] \<noteq> CHR 0x0A
   \<and> get_endtime demo_env (demo_world_j2 ''endtime'' [CHR 0x0A, CHR ''5''] demo_world) ''j2''
       = Inr (PStr ''5'')"
  by (simp add: update_endtime_def get_endtime_def eval_prep ENDTIME_def demo_world_def
        demo_world_j2_def strip_nl_def)

subsection \<open>get\_jid: properties\<close>

lemma str_in_append: "str_in n (a @ n @ b)"
proof (induction a)
  case Nil
  show ?case by (cases n; cases b) (simp_all add: startswith_def)
next
  case (Cons x a)
  then show ?case by simp
qed

lemma permission_denied_str:
  "str_in ''Permission denied:'' (exc_str (IOError EACCES n))"
proof -
  have "exc_str (IOError EACCES n)
        = ''[Errno 13] '' @ ''Permission denied:'' @ ('' '' @ [CHR 0x27] @ n @ [CHR 0x27])"
    by (simp add: exc_str_def strerror_def)
  then show ?thesis by (simp only: str_in_append)
qed

lemma get_jid_retry_done:
  "ret fn \<noteq> None \<Longrightarrow> get_jid_retry e w retp outp fn ret = Some (Inr ret)"
  by (subst get_jid_retry.simps) simp

lemma get_jid_retry_raise:
  assumes "ret fn = None" and "serial_load e w retp = Inl x"
    and "str_in ''Permission denied:'' (exc_str x)"
  shows "get_jid_retry e w retp outp fn ret = Some (Inl x)"
  using assms by (subst get_jid_retry.simps) (simp add: get_jid_try_def)

lemma get_jid_retry_spin_aux:
  assumes "get_jid_retry e w retp outp fn ret = Some y"
  shows "\<not> (ret fn = None \<and> (\<exists>x. serial_load e w retp = Inl x
            \<and> \<not> str_in ''Permission denied:'' (exc_str x)))"
proof (rule get_jid_retry.raw_induct[where P = "\<lambda>e w retp outp fn ret y.
    \<not> (ret fn = None \<and> (\<exists>x. serial_load e w retp = Inl x
            \<and> \<not> str_in ''Permission denied:'' (exc_str x)))", OF _ assms])
  fix f :: "env \<Rightarrow> world \<Rightarrow> string \<Rightarrow> string \<Rightarrow> string \<Rightarrow> (string \<rightharpoonup> jret)
      \<Rightarrow> (exn + (string \<rightharpoonup> jret)) option"
    and e w retp outp fn ret y
  assume IH: "\<And>e w retp outp fn ret y. f e w retp outp fn ret = Some y \<Longrightarrow>
    \<not> (ret fn = None \<and> (\<exists>x. serial_load e w retp = Inl x
            \<and> \<not> str_in ''Permission denied:'' (exc_str x)))"
  assume body: "(if ret fn \<noteq> None then Some (Inr ret)
      else case get_jid_try e w retp outp fn ret of
           (ret1, None) \<Rightarrow> f e w retp outp fn ret1
           | (ret1, Some x) \<Rightarrow>
               if str_in ''Permission denied:'' (exc_str x)
               then Some (Inl x) else f e w retp outp fn ret1) = Some y"
  show "\<not> (ret fn = None \<and> (\<exists>x. serial_load e w retp = Inl x
            \<and> \<not> str_in ''Permission denied:'' (exc_str x)))"
  proof
    assume bad: "ret fn = None \<and> (\<exists>x. serial_load e w retp = Inl x
            \<and> \<not> str_in ''Permission denied:'' (exc_str x))"
    then obtain x where x: "serial_load e w retp = Inl x"
      "\<not> str_in ''Permission denied:'' (exc_str x)" and n: "ret fn = None" by blast
    from body x n have "f e w retp outp fn ret = Some y"
      by (simp add: get_jid_try_def)
    from IH[OF this] bad show False by blast
  qed
qed

lemma get_jid_retry_spin:
  assumes "ret fn = None" and "serial_load e w retp = Inl x"
    and "\<not> str_in ''Permission denied:'' (exc_str x)"
  shows "get_jid_retry e w retp outp fn ret = None"
proof (cases "get_jid_retry e w retp outp fn ret")
  case None
  then show ?thesis .
next
  case (Some y)
  from get_jid_retry_spin_aux[OF Some] assms show ?thesis by blast
qed


lemma get_jid_retry_loaded:
  assumes "ret fn = None" and "serial_load e w retp = Inr v"
  shows "get_jid_retry e w retp outp fn ret =
     (if os_path_isfile w outp then
        (case serial_load e w outp of
           Inl x \<Rightarrow>
             if str_in ''Permission denied:'' (exc_str x) then Some (Inl x)
             else Some (Inr (ret(fn \<mapsto> \<lparr>r_return = v, r_out = None\<rparr>)))
         | Inr out_data \<Rightarrow> Some (Inr (ret(fn \<mapsto> \<lparr>r_return = v, r_out = Some out_data\<rparr>))))
      else Some (Inr (ret(fn \<mapsto> \<lparr>r_return = v, r_out = None\<rparr>))))"
  using assms
  by (subst get_jid_retry.simps)
     (simp add: get_jid_try_def Let_def get_jid_retry_done split: sum.splits)

lemma get_jid_retry_dom:
  assumes "get_jid_retry e w retp outp fn ret = Some (Inr m)"
  shows "dom m \<subseteq> insert fn (dom ret)"
proof (cases "ret fn = None")
  case False
  with assms show ?thesis by (auto simp: get_jid_retry_done)
next
  case True
  show ?thesis
  proof (cases "serial_load e w retp")
    case (Inl x)
    show ?thesis
    proof (cases "str_in ''Permission denied:'' (exc_str x)")
      case True
      with assms Inl \<open>ret fn = None\<close> show ?thesis by (simp add: get_jid_retry_raise)
    next
      case False
      with assms Inl \<open>ret fn = None\<close> show ?thesis by (simp add: get_jid_retry_spin)
    qed
  next
    case (Inr v)
    from assms show ?thesis
      unfolding get_jid_retry_loaded[where ret=ret and fn=fn, OF True Inr]
      by (auto split: if_splits sum.splits)
  qed
qed

lemma get_jid_entries_dom:
  "get_jid_entries e w jd fns ret = Some (Inr m) \<Longrightarrow>
     dom m \<subseteq> dom ret \<union> {fn \<in> set fns. \<not> startswith fn ''.''}"
proof (induction fns arbitrary: ret)
  case Nil
  then show ?case by simp
next
  case (Cons fn fns)
  show ?case
  proof (cases "startswith fn ''.''")
    case True
    with Cons.prems have "get_jid_entries e w jd fns ret = Some (Inr m)" by simp
    from Cons.IH[OF this] show ?thesis by auto
  next
    case nd: False
    show ?thesis
    proof (cases "ret fn = None \<and> os_path_isfile w (os_path_join jd [fn, RETURN_P])")
      case False
      with Cons.prems nd have "get_jid_entries e w jd fns ret = Some (Inr m)"
        by (auto simp: Let_def split: if_splits)
      from Cons.IH[OF this] show ?thesis by auto
    next
      case True
      with Cons.prems nd obtain ret1 where
        r: "get_jid_retry e w (os_path_join jd [fn, RETURN_P]) (os_path_join jd [fn, OUT_P]) fn ret
              = Some (Inr ret1)"
        and k: "get_jid_entries e w jd fns ret1 = Some (Inr m)"
        by (auto simp: Let_def split: option.splits sum.splits)
      have "{x \<in> set (fn # fns). \<not> startswith x ''.''}
              = insert fn {x \<in> set fns. \<not> startswith x ''.''}"
        using nd by auto
      with get_jid_retry_dom[OF r] Cons.IH[OF k] show ?thesis by blast
    qed
  qed
qed

text \<open>
  C9.  The mapping that \<open>get_jid\<close> returns has no entry for a name that starts with a
  dot, whatever the job directory holds under that name.
\<close>

theorem get_jid_skips_dot:
  assumes "get_jid e w jid = Some (Inr m)" and "startswith fn ''.''"
  shows "m fn = None"
proof (cases "os_path_isdir w (jid_dir e jid)")
  case False
  with assms show ?thesis by (auto simp: get_jid_def)
next
  case True
  with assms obtain fns where
    "get_jid_entries e w (jid_dir e jid) fns Map.empty = Some (Inr m)"
    by (auto simp: get_jid_def Let_def split: sum.splits)
  from get_jid_entries_dom[OF this] assms(2) show ?thesis by auto
qed

lemma get_jid_entries_stuck:
  assumes "fn \<in> set fns" and "\<not> startswith fn ''.''" and "ret fn = None"
    and "os_path_isfile w (os_path_join jd [fn, RETURN_P])"
    and "serial_load e w (os_path_join jd [fn, RETURN_P]) = Inl x"
    and "\<not> str_in ''Permission denied:'' (exc_str x)"
  shows "get_jid_entries e w jd fns ret \<noteq> Some (Inr m)"
  using assms(1,3)
proof (induction fns arbitrary: ret)
  case Nil
  then show ?case by simp
next
  case (Cons g fns)
  show ?case
  proof (cases "g = fn")
    case True
    have "get_jid_retry e w (os_path_join jd [fn, RETURN_P]) (os_path_join jd [fn, OUT_P]) fn ret
            = None"
      using Cons.prems(2) assms(5,6) by (rule get_jid_retry_spin)
    with True assms(2,4) Cons.prems(2) show ?thesis by (simp add: Let_def)
  next
    case False
    with Cons.prems(1) have mem: "fn \<in> set fns" by simp
    show ?thesis
    proof (cases "\<not> startswith g ''.'' \<and> ret g = None
                  \<and> os_path_isfile w (os_path_join jd [g, RETURN_P])")
      case skip: False
      then have "get_jid_entries e w jd (g # fns) ret = get_jid_entries e w jd fns ret"
        by (auto simp: Let_def)
      with Cons.IH[of ret, OF mem Cons.prems(2)] show ?thesis by simp
    next
      case True
      show ?thesis
      proof (cases "get_jid_retry e w (os_path_join jd [g, RETURN_P])
                      (os_path_join jd [g, OUT_P]) g ret")
        case None
        with True show ?thesis by (simp add: Let_def)
      next
        case (Some r)
        show ?thesis
        proof (cases r)
          case (Inl y)
          with Some True show ?thesis by (simp add: Let_def)
        next
          case (Inr ret1)
          with Some have "dom ret1 \<subseteq> insert g (dom ret)" by (auto dest: get_jid_retry_dom)
          with False Cons.prems(2) have "ret1 fn = None" by auto
          from Cons.IH[of ret1, OF mem this] Some Inr True show ?thesis by (simp add: Let_def)
        qed
      qed
    qed
  qed
qed

lemma get_jid_entries_returns:
  assumes "\<forall>fn\<in>set fns. \<not> startswith fn ''.''
             \<and> os_path_isfile w (os_path_join jd [fn, RETURN_P])
             \<longrightarrow> (\<exists>v. serial_load e w (os_path_join jd [fn, RETURN_P]) = Inr v)"
  shows "get_jid_entries e w jd fns ret \<noteq> None"
  using assms
proof (induction fns arbitrary: ret)
  case Nil
  then show ?case by simp
next
  case (Cons g fns)
  from Cons.prems have rest: "\<forall>fn\<in>set fns. \<not> startswith fn ''.''
             \<and> os_path_isfile w (os_path_join jd [fn, RETURN_P])
             \<longrightarrow> (\<exists>v. serial_load e w (os_path_join jd [fn, RETURN_P]) = Inr v)"
    by simp
  show ?case
  proof (cases "\<not> startswith g ''.'' \<and> ret g = None
                  \<and> os_path_isfile w (os_path_join jd [g, RETURN_P])")
    case False
    then have "get_jid_entries e w jd (g # fns) ret = get_jid_entries e w jd fns ret"
      by (auto simp: Let_def)
    with Cons.IH[OF rest] show ?thesis by simp
  next
    case True
    with Cons.prems obtain v where v: "serial_load e w (os_path_join jd [g, RETURN_P]) = Inr v"
      by auto
    from True have n: "ret g = None" by simp
    have "get_jid_retry e w (os_path_join jd [g, RETURN_P]) (os_path_join jd [g, OUT_P]) g ret
            \<noteq> None"
      unfolding get_jid_retry_loaded[where ret=ret and fn=g, OF n v]
      by (simp split: sum.splits)
    then obtain r where r: "get_jid_retry e w (os_path_join jd [g, RETURN_P])
                      (os_path_join jd [g, OUT_P]) g ret = Some r" by auto
    show ?thesis
    proof (cases r)
      case (Inl y)
      with r True show ?thesis by (simp add: Let_def)
    next
      case (Inr ret1)
      with r True Cons.IH[OF rest, of ret1] show ?thesis by (simp add: Let_def)
    qed
  qed
qed

text \<open>
  C6 (amended).  The retry loop of \<open>get_jid\<close> for a worker not yet in the mapping has
  no bound.  When loading \<open>return.p\<close> raises an error whose text contains
  \<open>Permission denied:\<close> (as opening a file the process may not open does), the error
  is raised at once.  When it raises any other error, the loop tries again; nothing
  has changed, so the loop does not end.  When \<open>return.p\<close> loads, the loop ends after
  that round, with the value of \<open>out.p\<close> if that file is there and loads, and without
  it if there is no such file or loading it fails for another reason than permission.
  For the whole call: when the job directory lists a worker (not dot-named) whose
  \<open>return.p\<close> is a file that fails to load with an error other than permission,
  \<open>get_jid\<close> returns no mapping (the worker is not left out); when every \<open>return.p\<close>
  that is read loads, the call returns.
\<close>

theorem get_jid_retry_outcomes:
  assumes "ret fn = None"
  shows "(serial_load e w retp = Inl x \<and> str_in ''Permission denied:'' (exc_str x)
            \<longrightarrow> get_jid_retry e w retp outp fn ret = Some (Inl x))
       \<and> (node_at w (components retp) = Some (File t False d)
            \<longrightarrow> get_jid_retry e w retp outp fn ret = Some (Inl (IOError EACCES retp)))
       \<and> (serial_load e w retp = Inl x \<and> \<not> str_in ''Permission denied:'' (exc_str x)
            \<longrightarrow> get_jid_retry e w retp outp fn ret = None)
       \<and> (serial_load e w retp = Inr v \<and> \<not> os_path_isfile w outp
            \<longrightarrow> get_jid_retry e w retp outp fn ret
                  = Some (Inr (ret(fn \<mapsto> \<lparr>r_return = v, r_out = None\<rparr>))))
       \<and> (serial_load e w retp = Inr v \<and> os_path_isfile w outp
            \<and> serial_load e w outp = Inr u
            \<longrightarrow> get_jid_retry e w retp outp fn ret
                  = Some (Inr (ret(fn \<mapsto> \<lparr>r_return = v, r_out = Some u\<rparr>))))
       \<and> (serial_load e w retp = Inr v \<and> os_path_isfile w outp
            \<and> serial_load e w outp = Inl x \<and> \<not> str_in ''Permission denied:'' (exc_str x)
            \<longrightarrow> get_jid_retry e w retp outp fn ret
                  = Some (Inr (ret(fn \<mapsto> \<lparr>r_return = v, r_out = None\<rparr>))))
       \<and> (os_path_isdir w (jid_dir e jid) \<and> os_listdir w (jid_dir e jid) = Inr fns
            \<and> g \<in> set fns \<and> \<not> startswith g ''.''
            \<and> os_path_isfile w (os_path_join (jid_dir e jid) [g, RETURN_P])
            \<and> serial_load e w (os_path_join (jid_dir e jid) [g, RETURN_P]) = Inl x
            \<and> \<not> str_in ''Permission denied:'' (exc_str x)
            \<longrightarrow> get_jid e w jid \<noteq> Some (Inr m))
       \<and> (os_path_isdir w (jid_dir e jid) \<and> os_listdir w (jid_dir e jid) = Inr fns
            \<and> (\<forall>g\<in>set fns. \<not> startswith g ''.''
                   \<and> os_path_isfile w (os_path_join (jid_dir e jid) [g, RETURN_P])
                  \<longrightarrow> (\<exists>v. serial_load e w (os_path_join (jid_dir e jid) [g, RETURN_P]) = Inr v))
            \<longrightarrow> get_jid e w jid \<noteq> None)"
proof -
  have perm: "node_at w (components retp) = Some (File t False d)
      \<longrightarrow> get_jid_retry e w retp outp fn ret = Some (Inl (IOError EACCES retp))"
  proof
    assume "node_at w (components retp) = Some (File t False d)"
    then have "serial_load e w retp = Inl (IOError EACCES retp)"
      by (simp add: serial_load_def read_file_def)
    with assms show "get_jid_retry e w retp outp fn ret = Some (Inl (IOError EACCES retp))"
      by (simp add: get_jid_retry_raise permission_denied_str)
  qed
  have stuck: "os_path_isdir w (jid_dir e jid) \<and> os_listdir w (jid_dir e jid) = Inr fns
            \<and> g \<in> set fns \<and> \<not> startswith g ''.''
            \<and> os_path_isfile w (os_path_join (jid_dir e jid) [g, RETURN_P])
            \<and> serial_load e w (os_path_join (jid_dir e jid) [g, RETURN_P]) = Inl x
            \<and> \<not> str_in ''Permission denied:'' (exc_str x)
            \<longrightarrow> get_jid e w jid \<noteq> Some (Inr m)"
  proof
    assume a: "os_path_isdir w (jid_dir e jid) \<and> os_listdir w (jid_dir e jid) = Inr fns
            \<and> g \<in> set fns \<and> \<not> startswith g ''.''
            \<and> os_path_isfile w (os_path_join (jid_dir e jid) [g, RETURN_P])
            \<and> serial_load e w (os_path_join (jid_dir e jid) [g, RETURN_P]) = Inl x
            \<and> \<not> str_in ''Permission denied:'' (exc_str x)"
    then have "get_jid_entries e w (jid_dir e jid) fns Map.empty \<noteq> Some (Inr m)"
      by (intro get_jid_entries_stuck[where fn=g and x=x]) simp_all
    with a show "get_jid e w jid \<noteq> Some (Inr m)" by (simp add: get_jid_def)
  qed
  have returns: "os_path_isdir w (jid_dir e jid) \<and> os_listdir w (jid_dir e jid) = Inr fns
            \<and> (\<forall>g\<in>set fns. \<not> startswith g ''.''
                   \<and> os_path_isfile w (os_path_join (jid_dir e jid) [g, RETURN_P])
                  \<longrightarrow> (\<exists>v. serial_load e w (os_path_join (jid_dir e jid) [g, RETURN_P]) = Inr v))
            \<longrightarrow> get_jid e w jid \<noteq> None"
  proof
    assume a: "os_path_isdir w (jid_dir e jid) \<and> os_listdir w (jid_dir e jid) = Inr fns
            \<and> (\<forall>g\<in>set fns. \<not> startswith g ''.''
                   \<and> os_path_isfile w (os_path_join (jid_dir e jid) [g, RETURN_P])
                  \<longrightarrow> (\<exists>v. serial_load e w (os_path_join (jid_dir e jid) [g, RETURN_P]) = Inr v))"
    then have "get_jid_entries e w (jid_dir e jid) fns Map.empty \<noteq> None"
      by (intro get_jid_entries_returns) simp
    with a show "get_jid e w jid \<noteq> None" by (simp add: get_jid_def)
  qed
  have loop: "(serial_load e w retp = Inl x \<and> str_in ''Permission denied:'' (exc_str x)
            \<longrightarrow> get_jid_retry e w retp outp fn ret = Some (Inl x))
       \<and> (serial_load e w retp = Inl x \<and> \<not> str_in ''Permission denied:'' (exc_str x)
            \<longrightarrow> get_jid_retry e w retp outp fn ret = None)
       \<and> (serial_load e w retp = Inr v \<and> \<not> os_path_isfile w outp
            \<longrightarrow> get_jid_retry e w retp outp fn ret
                  = Some (Inr (ret(fn \<mapsto> \<lparr>r_return = v, r_out = None\<rparr>))))
       \<and> (serial_load e w retp = Inr v \<and> os_path_isfile w outp
            \<and> serial_load e w outp = Inr u
            \<longrightarrow> get_jid_retry e w retp outp fn ret
                  = Some (Inr (ret(fn \<mapsto> \<lparr>r_return = v, r_out = Some u\<rparr>))))
       \<and> (serial_load e w retp = Inr v \<and> os_path_isfile w outp
            \<and> serial_load e w outp = Inl x \<and> \<not> str_in ''Permission denied:'' (exc_str x)
            \<longrightarrow> get_jid_retry e w retp outp fn ret
                  = Some (Inr (ret(fn \<mapsto> \<lparr>r_return = v, r_out = None\<rparr>))))"
    using assms by (auto simp: get_jid_retry_raise get_jid_retry_spin get_jid_retry_loaded)
  from loop perm stuck returns show ?thesis by blast
qed

lemmas eval_get = get_jid_def get_jid_try_def demo_jid_dirs eval_fs os_path_join_def join2_def
  startswith_def components_def Let_def RETURN_P_def OUT_P_def demo_env_fields demo_loads_def

theorem get_jid_skips_dot_witness:
  "get_jid demo_env (demo_world_res True ''sa'') ''j1''
     = Some (Inr [''m1'' \<mapsto> \<lparr>r_return = PStr ''a'', r_out = None\<rparr>])
   \<and> startswith ''.hid'' ''.''
   \<and> os_path_isfile (demo_world_res True ''sa'') ''/c/jobs/aa/01/.hid/return.p''
   \<and> [''m1'' \<mapsto> \<lparr>r_return = PStr ''a'', r_out = None\<rparr>] ''.hid'' = None"
proof -
  have run: "get_jid demo_env (demo_world_res True ''sa'') ''j1''
     = Some (Inr [''m1'' \<mapsto> \<lparr>r_return = PStr ''a'', r_out = None\<rparr>])"
    by (simp add: eval_get demo_world_res_def get_jid_retry.simps)
  have dot: "startswith ''.hid'' ''.''" by (simp add: startswith_def)
  have "os_path_isfile (demo_world_res True ''sa'') ''/c/jobs/aa/01/.hid/return.p''"
    by (simp add: demo_world_res_def eval_fs components_def)
  with get_jid_skips_dot [OF run dot] run dot show ?thesis by simp
qed

theorem get_jid_retry_outcomes_witness:
  "Map.empty ''m1'' = (None :: jret option)
   \<and> serial_load demo_env (demo_world_res True ''x'') ''/c/jobs/aa/01/m1/return.p''
       = Inl (OtherError ''unpack failed'')
   \<and> \<not> str_in ''Permission denied:'' (exc_str (OtherError ''unpack failed''))
   \<and> get_jid_retry demo_env (demo_world_res True ''x'') ''/c/jobs/aa/01/m1/return.p''
        ''/c/jobs/aa/01/m1/out.p'' ''m1'' Map.empty = None
   \<and> node_at (demo_world_res False ''sa'') (components ''/c/jobs/aa/01/m1/return.p'')
       = Some (File 150 False ''sa'')
   \<and> get_jid_retry demo_env (demo_world_res False ''sa'') ''/c/jobs/aa/01/m1/return.p''
        ''/c/jobs/aa/01/m1/out.p'' ''m1'' Map.empty
       = Some (Inl (IOError EACCES ''/c/jobs/aa/01/m1/return.p''))
   \<and> os_path_isdir (demo_world_res True ''x'') (jid_dir demo_env ''j1'')
   \<and> os_listdir (demo_world_res True ''x'') (jid_dir demo_env ''j1'')
       = Inr [''jid'', ''.hid'', ''m1'']
   \<and> os_path_isfile (demo_world_res True ''x'') ''/c/jobs/aa/01/m1/return.p''
   \<and> get_jid demo_env (demo_world_res True ''x'') ''j1'' \<noteq> Some (Inr Map.empty)
   \<and> os_listdir (demo_world_res True ''sa'') (jid_dir demo_env ''j1'')
       = Inr [''jid'', ''.hid'', ''m1'']
   \<and> serial_load demo_env (demo_world_res True ''sa'') ''/c/jobs/aa/01/m1/return.p''
       = Inr (PStr ''a'')
   \<and> get_jid demo_env (demo_world_res True ''sa'') ''j1'' \<noteq> None"
proof -
  have e: "Map.empty ''m1'' = (None :: jret option)" by simp
  have l: "serial_load demo_env (demo_world_res True ''x'') ''/c/jobs/aa/01/m1/return.p''
       = Inl (OtherError ''unpack failed'')"
    by (simp add: demo_world_res_def eval_fs components_def demo_env_fields demo_loads_def)
  have n: "\<not> str_in ''Permission denied:'' (exc_str (OtherError ''unpack failed''))"
    by (simp add: exc_str_def startswith_def)
  have p: "node_at (demo_world_res False ''sa'') (components ''/c/jobs/aa/01/m1/return.p'')
       = Some (File 150 False ''sa'')"
    by (simp add: demo_world_res_def eval_fs components_def)
  have d: "os_path_isdir (demo_world_res ok b) (jid_dir demo_env ''j1'')"
    "os_listdir (demo_world_res ok b) (jid_dir demo_env ''j1'') = Inr [''jid'', ''.hid'', ''m1'']"
    "os_path_isfile (demo_world_res ok b) ''/c/jobs/aa/01/m1/return.p''"
    "os_path_isfile (demo_world_res ok b) ''/c/jobs/aa/01/.hid/return.p''"
    "\<not> os_path_isfile (demo_world_res ok b) ''/c/jobs/aa/01/jid/return.p''"
    for ok b
    by (simp_all add: demo_world_res_def demo_jid_dirs eval_fs components_def Let_def)
  have j: "os_path_join (jid_dir demo_env ''j1'') [g, RETURN_P] = ''/c/jobs/aa/01/'' @ g @ ''/return.p''"
    if "g \<in> set [''jid'', ''.hid'', ''m1'']" for g
    using that
    by (auto simp: demo_jid_dirs os_path_join_def join2_def startswith_def RETURN_P_def)
  have ok: "serial_load demo_env (demo_world_res True ''sa'') ''/c/jobs/aa/01/m1/return.p''
       = Inr (PStr ''a'')"
    by (simp add: demo_world_res_def eval_fs components_def demo_env_fields demo_loads_def)
  from get_jid_retry_outcomes [OF e, where e = demo_env and w = "demo_world_res True ''x''"
      and retp = "''/c/jobs/aa/01/m1/return.p''" and x = "OtherError ''unpack failed''"
      and outp = "''/c/jobs/aa/01/m1/out.p''" and jid = "''j1''"
      and fns = "[''jid'', ''.hid'', ''m1'']" and g = "''m1''" and m = Map.empty] l n d j
  have spin: "get_jid_retry demo_env (demo_world_res True ''x'') ''/c/jobs/aa/01/m1/return.p''
        ''/c/jobs/aa/01/m1/out.p'' ''m1'' Map.empty = None"
    and stuck: "get_jid demo_env (demo_world_res True ''x'') ''j1'' \<noteq> Some (Inr Map.empty)"
    by (simp_all add: startswith_def)
  from get_jid_retry_outcomes [OF e, where e = demo_env and w = "demo_world_res False ''sa''"
      and retp = "''/c/jobs/aa/01/m1/return.p''" and outp = "''/c/jobs/aa/01/m1/out.p''"
      and t = 150 and d = "''sa''"] p
  have perm: "get_jid_retry demo_env (demo_world_res False ''sa'') ''/c/jobs/aa/01/m1/return.p''
        ''/c/jobs/aa/01/m1/out.p'' ''m1'' Map.empty
       = Some (Inl (IOError EACCES ''/c/jobs/aa/01/m1/return.p''))"
    by simp
  have loads: "\<forall>g\<in>set [''jid'', ''.hid'', ''m1'']. \<not> startswith g ''.''
                   \<and> os_path_isfile (demo_world_res True ''sa'')
                        (os_path_join (jid_dir demo_env ''j1'') [g, RETURN_P])
                  \<longrightarrow> (\<exists>v. serial_load demo_env (demo_world_res True ''sa'')
                             (os_path_join (jid_dir demo_env ''j1'') [g, RETURN_P]) = Inr v)"
    using ok d(5) by (simp add: j startswith_def)
  from get_jid_retry_outcomes [OF e, where e = demo_env and w = "demo_world_res True ''sa''"
      and jid = "''j1''" and fns = "[''jid'', ''.hid'', ''m1'']"] d(1,2) loads
  have returns: "get_jid demo_env (demo_world_res True ''sa'') ''j1'' \<noteq> None"
    by blast
  from e l n p spin perm d stuck ok returns show ?thesis by simp
qed

text \<open>
  The claim as stated fails: with a \<open>return.p\<close> that the decoder rejects, \<open>get_jid\<close>
  does not return.
\<close>

theorem get_jid_hangs_counterexample:
  "get_jid demo_env (demo_world_res True ''x'') ''j1'' = None"
proof -
  have l: "serial_load demo_env (demo_world_res True ''x'') ''/c/jobs/aa/01/m1/return.p''
       = Inl (OtherError ''unpack failed'')"
    by (simp add: demo_world_res_def eval_fs components_def demo_env_fields demo_loads_def)
  have n: "\<not> str_in ''Permission denied:'' (exc_str (OtherError ''unpack failed''))"
    by (simp add: exc_str_def startswith_def)
  have spin: "get_jid_retry demo_env (demo_world_res True ''x'') ''/c/jobs/aa/01/m1/return.p''
        ''/c/jobs/aa/01/m1/out.p'' ''m1'' Map.empty = None"
    using l n by (simp add: get_jid_retry_spin)
  show ?thesis
    by (simp add: eval_get demo_world_res_def spin[unfolded demo_world_res_def])
qed

subsection \<open>bisect: the binary search finds the insertion point\<close>

lemma bisect_loop_bounds:
  fixes a :: "'a::linorder list"
  assumes "sorted a" and "lo \<le> hi" and "hi \<le> length a"
    and "\<forall>i<lo. a ! i \<le> x" and "\<forall>i. hi \<le> i \<and> i < length a \<longrightarrow> x < a ! i"
  shows "bisect_loop a x lo hi \<le> length a
    \<and> (\<forall>i<bisect_loop a x lo hi. a ! i \<le> x)
    \<and> (\<forall>i. bisect_loop a x lo hi \<le> i \<and> i < length a \<longrightarrow> x < a ! i)"
  using assms
proof (induction a x lo hi rule: bisect_loop.induct)
  case (1 a x lo hi)
  show ?case
  proof (cases "lo < hi")
    case False
    with "1.prems" have "lo = hi" by simp
    with False "1.prems" show ?thesis by (subst (1 2 3) bisect_loop.simps) simp
  next
    case True
    define mid where "mid = (lo + hi) div 2"
    from True have m: "lo \<le> mid" "mid < hi" by (simp_all add: mid_def)
    with "1.prems" have ml: "mid < length a" by simp
    show ?thesis
    proof (cases "x < a ! mid")
      case lt: True
      have up: "\<forall>i. mid \<le> i \<and> i < length a \<longrightarrow> x < a ! i"
      proof (intro allI impI)
        fix i assume "mid \<le> i \<and> i < length a"
        with "1.prems"(1) have "a ! mid \<le> a ! i" by (simp add: sorted_nth_mono)
        with lt show "x < a ! i" by simp
      qed
      from m "1.prems" have le: "mid \<le> length a" by simp
      have eq: "bisect_loop a x lo hi = bisect_loop a x lo mid"
        using True lt by (subst bisect_loop.simps) (simp add: mid_def)
      from "1.IH"(1)[OF True mid_def lt "1.prems"(1) m(1) le "1.prems"(4) up]
      show ?thesis by (simp add: eq)
    next
      case ge: False
      have low: "\<forall>i<mid + 1. a ! i \<le> x"
      proof (intro allI impI)
        fix i assume "i < mid + 1"
        then have "i \<le> mid" by simp
        with "1.prems"(1) ml have "a ! i \<le> a ! mid" by (simp add: sorted_nth_mono)
        with ge show "a ! i \<le> x" by simp
      qed
      from m have le: "mid + 1 \<le> hi" by simp
      have eq: "bisect_loop a x lo hi = bisect_loop a x (mid + 1) hi"
        using True ge by (subst bisect_loop.simps) (simp add: mid_def)
      from "1.IH"(2)[OF True mid_def ge "1.prems"(1) le "1.prems"(3) low "1.prems"(5)]
      show ?thesis by (simp add: eq)
    qed
  qed
qed

lemma bisect_sorted:
  fixes a :: "'a::linorder list"
  assumes "sorted a"
  shows "take (bisect a x) a = takeWhile (\<lambda>y. y \<le> x) a
       \<and> drop (bisect a x) a = dropWhile (\<lambda>y. y \<le> x) a"
proof -
  have "bisect_loop a x 0 (length a) \<le> length a
    \<and> (\<forall>i<bisect_loop a x 0 (length a). a ! i \<le> x)
    \<and> (\<forall>i. bisect_loop a x 0 (length a) \<le> i \<and> i < length a \<longrightarrow> x < a ! i)"
    by (rule bisect_loop_bounds[OF assms]) auto
  then have b: "bisect a x \<le> length a" "\<forall>i<bisect a x. a ! i \<le> x"
    "\<forall>i. bisect a x \<le> i \<and> i < length a \<longrightarrow> x < a ! i"
    by (simp_all add: bisect_def)
  have t: "takeWhile (\<lambda>y. y \<le> x) a = take (bisect a x) a"
  proof (rule takeWhile_eq_take_P_nth)
    fix i assume "i < bisect a x" "i < length a"
    with b(2) show "a ! i \<le> x" by simp
  next
    assume "bisect a x < length a"
    with b(3) have "x < a ! bisect a x" by simp
    then show "\<not> a ! bisect a x \<le> x" by simp
  qed
  have "dropWhile (\<lambda>y. y \<le> x) a = drop (length (takeWhile (\<lambda>y. y \<le> x) a)) a"
    by (rule dropWhile_eq_drop)
  also have "\<dots> = drop (bisect a x) a" using t b(1) by simp
  finally show ?thesis using t by simp
qed

lemma insort_takeWhile:
  fixes a :: "'a::linorder list"
  assumes "x \<notin> set a"
  shows "insort x a = takeWhile (\<lambda>y. y \<le> x) a @ x # dropWhile (\<lambda>y. y \<le> x) a"
  using assms by (induction a) auto

lemma list_insert_bisect:
  fixes a :: "'a::linorder list"
  assumes "sorted a" and "x \<notin> set a"
  shows "list_insert (bisect a x) x a = insort x a"
  using bisect_sorted[OF assms(1), of x] insort_takeWhile[OF assms(2)]
  by (simp add: list_insert_def)

lemma bisect_zero_iff:
  fixes a :: "'a::linorder list"
  assumes "sorted a"
  shows "bisect a x = 0 \<longleftrightarrow> (\<forall>y\<in>set a. x < y)"
proof -
  have "bisect_loop a x 0 (length a) \<le> length a
    \<and> (\<forall>i<bisect_loop a x 0 (length a). a ! i \<le> x)
    \<and> (\<forall>i. bisect_loop a x 0 (length a) \<le> i \<and> i < length a \<longrightarrow> x < a ! i)"
    by (rule bisect_loop_bounds[OF assms]) auto
  then have b: "bisect a x \<le> length a" "\<forall>i<bisect a x. a ! i \<le> x"
    "\<forall>i. bisect a x \<le> i \<and> i < length a \<longrightarrow> x < a ! i"
    by (simp_all add: bisect_def)
  show ?thesis
  proof
    assume "bisect a x = 0"
    with b(3) show "\<forall>y\<in>set a. x < y" by (auto simp: in_set_conv_nth)
  next
    assume all: "\<forall>y\<in>set a. x < y"
    show "bisect a x = 0"
    proof (rule ccontr)
      assume "bisect a x \<noteq> 0"
      then have "0 < bisect a x" by simp
      with b have "a ! 0 \<le> x" "0 < length a" by auto
      with all show False by (metis nth_mem not_le)
    qed
  qed
qed


subsection \<open>The bounded sorted list\<close>

lemma insort_append_right:
  fixes A :: "'a::linorder list"
  assumes "\<forall>b\<in>set B. k \<le> b"
  shows "insort k (A @ B) = insort k A @ B"
  using assms by (induction A) (simp_all add: insort_is_Cons)

lemma insort_append_left:
  fixes A :: "'a::linorder list"
  assumes "\<forall>a\<in>set A. a < k"
  shows "insort k (A @ B) = A @ insort k B"
  using assms by (induction A) auto

lemma topk_step:
  fixes S :: "'a::linorder list"
  assumes srt: "sorted S" and nin: "k \<notin> set S" and keys: "keys = recent (nat N) S"
  shows "(if int (length keys) = N \<and> bisect keys k = 0 then keys
          else if int (length (list_insert (bisect keys k) k keys)) > N
               then tl (list_insert (bisect keys k) k keys)
               else list_insert (bisect keys k) k keys)
         = recent (nat N) (insort k S)"
proof -
  define n where "n = nat N"
  define m where "m = length S - n"
  define A where "A = take m S"
  have B: "keys = drop m S" by (simp add: keys recent_def n_def m_def)
  have S: "S = A @ keys" by (simp add: A_def B)
  have sk: "sorted keys" using srt by (simp add: B sorted_wrt_drop)
  have nk: "k \<notin> set keys" using nin by (auto simp: B dest: in_set_dropD)
  have ins: "list_insert (bisect keys k) k keys = insort k keys"
    using sk nk by (rule list_insert_bisect)
  have len: "length keys = min n (length S)" by (auto simp: B m_def)
  have rhs: "recent (nat N) (insort k S) = drop (Suc (length S) - n) (insort k S)"
    by (simp add: recent_def n_def)
  have "(if int (length keys) = N \<and> bisect keys k = 0 then keys
          else if int (length (insort k keys)) > N then tl (insort k keys)
               else insort k keys)
         = recent (nat N) (insort k S)"
  proof (cases "N < 0")
    case True
    then have "n = 0" by (simp add: n_def)
    with len have e: "keys = []" by simp
    with True rhs \<open>n = 0\<close> show ?thesis by simp
  next
    case False
    then have N: "N = int n" by (simp add: n_def)
    show ?thesis
    proof (cases "length S < n")
      case True
      then have "m = 0" by (simp add: m_def)
      with B have "keys = S" by simp
      with True N rhs show ?thesis by simp
    next
      case False
      then have ln: "length keys = n" and lA: "length A = m" and mn: "m + n = length S"
        using len by (simp_all add: A_def m_def)
      show ?thesis
      proof (cases "bisect keys k = 0")
        case True
        with bisect_zero_iff[OF sk, of k] have "\<forall>b\<in>set keys. k \<le> b" by auto
        then have "insort k S = insort k A @ keys"
          unfolding S[symmetric] by (subst S) (rule insort_append_right)
        moreover have "length (insort k A) = Suc (length S) - n" using lA mn by simp
        ultimately have "drop (Suc (length S) - n) (insort k S) = keys" by simp
        with True ln N rhs show ?thesis by simp
      next
        case nz: False
        with bisect_zero_iff[OF sk, of k] obtain y where y: "y \<in> set keys" "\<not> k < y" by auto
        with nk have yk: "y < k" by (cases "y = k") auto
        have "\<forall>a\<in>set A. a < k"
        proof
          fix a assume "a \<in> set A"
          with srt y(1) have "a \<le> y" by (subst (asm) S) (auto simp: sorted_append)
          with yk show "a < k" by simp
        qed
        then have "insort k S = A @ insort k keys"
          by (subst S) (rule insort_append_left)
        moreover have "Suc (length S) - n = Suc (length A)" using lA mn by simp
        ultimately have "drop (Suc (length S) - n) (insort k S) = tl (insort k keys)"
          by (simp add: drop_Suc drop_tl)
        with nz ln N rhs show ?thesis by simp
      qed
    qed
  qed
  then show ?thesis unfolding ins .
qed


subsection \<open>get\_jids\_filter: properties\<close>

lemma list_insert_map: "list_insert i (f x) (map f xs) = map f (list_insert i x xs)"
  by (simp add: list_insert_def take_map drop_map)

lemma get_jids_filter_loop_inv:
  assumes "\<forall>(jid, job, t, f) \<in> set jobs.
             format_jid_instance_ext e jid job = Inr (summ jid)
             \<and> py_getitem (summ jid) ''Function'' = Inr (func jid)"
    and "distinct (S @ [j \<leftarrow> map fst jobs. func j \<noteq> PStr ''saltutil.find_job''])"
    and "sorted S"
    and "keys = recent (nat N) S" and "ret = map summ keys"
  shows "\<exists>S'. sorted S' \<and> distinct S'
           \<and> set S' = set S \<union> {j \<in> set (map fst jobs). func j \<noteq> PStr ''saltutil.find_job''}
           \<and> get_jids_filter_loop e N True jobs keys ret = Inr (map summ (recent (nat N) S'))"
  using assms
proof (induction jobs arbitrary: S keys ret)
  case Nil
  then show ?case by auto
next
  case (Cons x rest)
  obtain jid job0 t f where x: "x = (jid, job0, t, f)" by (cases x) auto
  from Cons.prems(1) x have fm: "format_jid_instance_ext e jid job0 = Inr (summ jid)"
    and fu: "py_getitem (summ jid) ''Function'' = Inr (func jid)"
    and rest: "\<forall>(jid, job, t, f) \<in> set rest.
             format_jid_instance_ext e jid job = Inr (summ jid)
             \<and> py_getitem (summ jid) ''Function'' = Inr (func jid)"
    by auto
  show ?case
  proof (cases "func jid = PStr ''saltutil.find_job''")
    case True
    with fm fu x have step: "get_jids_filter_loop e N True (x # rest) keys ret
        = get_jids_filter_loop e N True rest keys ret"
      by simp
    from Cons.prems(2) True x
    have d: "distinct (S @ [j \<leftarrow> map fst rest. func j \<noteq> PStr ''saltutil.find_job''])"
      by simp
    from Cons.IH[OF rest d Cons.prems(3) Cons.prems(4) Cons.prems(5)] obtain S' where
      "sorted S'" "distinct S'"
      "set S' = set S \<union> {j \<in> set (map fst rest). func j \<noteq> PStr ''saltutil.find_job''}"
      "get_jids_filter_loop e N True rest keys ret = Inr (map summ (recent (nat N) S'))"
      by blast
    with True x step show ?thesis by (intro exI[of _ S']) auto
  next
    case False
    define keys2 where "keys2 =
      (if int (length keys) = N \<and> bisect keys jid = 0 then keys
       else if int (length (list_insert (bisect keys jid) jid keys)) > N
            then tl (list_insert (bisect keys jid) jid keys)
            else list_insert (bisect keys jid) jid keys)"
    from Cons.prems(2) False x have nin: "jid \<notin> set S"
      and d: "distinct (insort jid S @ [j \<leftarrow> map fst rest. func j \<noteq> PStr ''saltutil.find_job''])"
      by (auto simp: distinct_insort set_insort_key)
    have k2: "keys2 = recent (nat N) (insort jid S)"
      unfolding keys2_def using Cons.prems(3) nin Cons.prems(4) by (rule topk_step)
    have lr: "length ret = length keys" using Cons.prems(5) by simp
    have step: "get_jids_filter_loop e N True (x # rest) keys ret
        = get_jids_filter_loop e N True rest keys2 (map summ keys2)"
      using fm fu x False lr Cons.prems(5)
      by (simp add: Let_def keys2_def list_insert_map map_tl)
    have s2: "sorted (insort jid S)" using Cons.prems(3) by (simp add: sorted_insort)
    from Cons.IH[OF rest d s2 k2 refl] obtain S' where
      "sorted S'" "distinct S'"
      "set S' = set (insort jid S) \<union> {j \<in> set (map fst rest). func j \<noteq> PStr ''saltutil.find_job''}"
      "get_jids_filter_loop e N True rest keys2 (map summ keys2) = Inr (map summ (recent (nat N) S'))"
      by blast
    with False x step show ?thesis by (intro exI[of _ S']) (auto simp: set_insort_key)
  qed
qed

text \<open>
  C3.  Let the walk yield jobs with pairwise distinct job ids, each with a summary
  that has a \<open>Function\<close>.  Then \<open>get_jids_filter(N, filter_find_job=True)\<close> returns the
  summaries of the job ids \<open>R\<close>, where \<open>R\<close> is the last \<open>N\<close> of the ascending list of the
  job ids whose function is not \<open>saltutil.find_job\<close> (none when \<open>N\<close> is negative): at
  most \<open>N\<close> of them, ascending by job id, none of them a \<open>saltutil.find_job\<close> job, and
  the greatest ones.
\<close>

theorem get_jids_filter_recent:
  assumes walk: "walk_through e w (job_dir e) = Inr jobs"
    and dist: "distinct (map fst jobs)"
    and fmt: "\<forall>(jid, job, t, f) \<in> set jobs.
             format_jid_instance_ext e jid job = Inr (summ jid)
             \<and> py_getitem (summ jid) ''Function'' = Inr (func jid)"
    and R: "R = recent (nat N) (sort [j \<leftarrow> map fst jobs. func j \<noteq> PStr ''saltutil.find_job''])"
  shows "get_jids_filter e w N True = Inr (map summ R)
     \<and> (0 \<le> N \<longrightarrow> int (length R) \<le> N)
     \<and> sorted R \<and> distinct R
     \<and> (\<forall>j \<in> set R. j \<in> set (map fst jobs) \<and> func j \<noteq> PStr ''saltutil.find_job'')"
proof -
  let ?K = "[j \<leftarrow> map fst jobs. func j \<noteq> PStr ''saltutil.find_job'']"
  have dK: "distinct ([] @ ?K)" using dist by simp
  from get_jids_filter_loop_inv[OF fmt dK, of "[]" N "[]"] obtain S' where
    S': "sorted S'" "distinct S'" "set S' = set ?K"
    and run: "get_jids_filter_loop e N True jobs [] [] = Inr (map summ (recent (nat N) S'))"
    by (auto simp: recent_def)
  have "sort ?K = S'"
    using S' dist by (intro sorted_distinct_set_unique) simp_all
  with run walk R have a: "get_jids_filter e w N True = Inr (map summ R)"
    by (simp add: get_jids_filter_def)
  have b: "0 \<le> N \<longrightarrow> int (length R) \<le> N" by (auto simp: R recent_def)
  have c: "sorted R" "distinct R" using dist by (simp_all add: R recent_def sorted_wrt_drop)
  have d: "\<forall>j \<in> set R. j \<in> set (map fst jobs) \<and> func j \<noteq> PStr ''saltutil.find_job''"
  proof
    fix j assume "j \<in> set R"
    then have "j \<in> set (sort ?K)" by (auto simp: R recent_def dest: in_set_dropD)
    then show "j \<in> set (map fst jobs) \<and> func j \<noteq> PStr ''saltutil.find_job''" by auto
  qed
  from a b c d show ?thesis by simp
qed


lemma demo_walk: "walk_through demo_env demo_world_jobs (job_dir demo_env) = Inr demo_jobs"
  by (simp add: walk_through_def demo_jobs_def demo_world_jobs_def job_dir_def eval_fs
        os_path_join_def join2_def startswith_def components_def Let_def LOAD_P_def
        demo_env_fields demo_loads_def job_jid_def py_getitem_def)

theorem get_jids_filter_recent_witness:
  "walk_through demo_env demo_world_jobs (job_dir demo_env) = Inr demo_jobs
   \<and> distinct (map fst demo_jobs)
   \<and> get_jids_filter demo_env demo_world_jobs 1 True = Inr [demo_summ ''j3'']
   \<and> int (length [''j3'']) \<le> 1
   \<and> demo_func ''j3'' \<noteq> PStr ''saltutil.find_job''"
proof -
  have d: "distinct (map fst demo_jobs)" by (simp add: demo_jobs_def)
  have f: "\<forall>(jid, job, t, f) \<in> set demo_jobs.
             format_jid_instance_ext demo_env jid job = Inr (demo_summ jid)
             \<and> py_getitem (demo_summ jid) ''Function'' = Inr (demo_func jid)"
    by (simp add: demo_jobs_def demo_env_fields demo_format_def py_getitem_def demo_summ_def
          demo_func_def)
  have K: "[j \<leftarrow> map fst demo_jobs. demo_func j \<noteq> PStr ''saltutil.find_job''] = [''j1'', ''j3'']"
    by (simp add: demo_jobs_def demo_func_def)
  have s: "sort [''j1'', ''j3''] = [''j1'', ''j3'']"
    by (simp add: less_eq_char_def less_char_def)
  have R: "[''j3''] = recent (nat 1)
      (sort [j \<leftarrow> map fst demo_jobs. demo_func j \<noteq> PStr ''saltutil.find_job''])"
    by (simp add: K s recent_def)
  from get_jids_filter_recent [OF demo_walk d f R] demo_walk d show ?thesis
    by simp
qed

subsection \<open>clean\_old\_jobs: properties\<close>







lemma marker_ctime_cong:
  "node_at w1 (d @ [''jid'']) = node_at w (d @ [''jid'']) \<Longrightarrow> marker_ctime w1 d = marker_ctime w d"
  by (simp add: marker_ctime_def)












end
